theory Spec2Isabelle
  imports Main
begin

section \<open>Strings as Python has them\<close>

text \<open>
  A caption is a Python \<open>str\<close>. It is modelled as a \<open>string\<close> whose characters are
  read as the code points U+0000 to U+00FF. On that range \<open>str.lower()\<close> moves the
  letters A to Z and the letters U+00C0 to U+00DE, the multiplication sign U+00D7
  apart, 32 code points up and leaves every other character alone.
\<close>

definition lower_char :: "char \<Rightarrow> char" where
  "lower_char c =
     (let n = (of_char c :: nat)
      in if (65 \<le> n \<and> n \<le> 90) \<or> (192 \<le> n \<and> n \<le> 222 \<and> n \<noteq> 215)
         then char_of (n + 32) else c)"

definition lower :: "string \<Rightarrow> string" where
  "lower s = map lower_char s"

text \<open>\<open>sub in s\<close> on strings: \<open>sub\<close> occurs in \<open>s\<close> as a contiguous run.\<close>

primrec starts_with :: "string \<Rightarrow> string \<Rightarrow> bool" where
  "starts_with [] s = True"
| "starts_with (c # cs) s = (case s of [] \<Rightarrow> False | d # ds \<Rightarrow> c = d \<and> starts_with cs ds)"

primrec contains :: "string \<Rightarrow> string \<Rightarrow> bool" where
  "contains sub [] = (sub = [])"
| "contains sub (c # cs) = (starts_with sub (c # cs) \<or> contains sub cs)"

section \<open>The tag deriver: \<open>extract_mood_tags\<close>\<close>

text \<open>
  The dictionary literal \<open>mood_mappings\<close>, in the order it is written (a Python dict
  iterates in insertion order, and no key occurs twice).
\<close>

definition mood_mappings :: "(string \<times> string list) list" where
  "mood_mappings =
    [(''sunny'', [''bright'', ''cheerful'', ''warm'']),
     (''bright'', [''happy'', ''vibrant'', ''energetic'']),
     (''dark'', [''moody'', ''mysterious'', ''dramatic'']),
     (''colorful'', [''joyful'', ''lively'', ''playful'']),
     (''peaceful'', [''calm'', ''serene'', ''tranquil'']),
     (''beautiful'', [''elegant'', ''lovely'', ''aesthetic'']),
     (''green'', [''natural'', ''fresh'', ''organic'']),
     (''blue'', [''cool'', ''calm'', ''peaceful'']),
     (''red'', [''passionate'', ''bold'', ''energetic'']),
     (''yellow'', [''cheerful'', ''sunny'', ''bright'']),
     (''orange'', [''warm'', ''vibrant'', ''enthusiastic'']),
     (''purple'', [''mystical'', ''luxurious'', ''dreamy'']),
     (''black'', [''moody'', ''minimalist'', ''bold'']),
     (''white'', [''clean'', ''peaceful'', ''pure'']),
     (''water'', [''refreshing'', ''fluid'', ''clean'']),
     (''flower'', [''delicate'', ''beautiful'', ''natural'']),
     (''sunset'', [''romantic'', ''warm'', ''golden'']),
     (''sunrise'', [''hopeful'', ''gentle'', ''fresh'']),
     (''rain'', [''melancholic'', ''calm'', ''moody'']),
     (''snow'', [''quiet'', ''cold'', ''magical'']),
     (''storm'', [''chaotic'', ''powerful'', ''intense'']),
     (''city'', [''urban'', ''dynamic'', ''modern'']),
     (''mountain'', [''majestic'', ''strong'', ''elevated'']),
     (''beach'', [''relaxing'', ''tropical'', ''carefree'']),
     (''forest'', [''natural'', ''mysterious'', ''earthy'']),
     (''desert'', [''vast'', ''dry'', ''isolated'']),
     (''sky'', [''open'', ''free'', ''airy'']),
     (''smile'', [''happy'', ''joyful'', ''positive'']),
     (''laugh'', [''cheerful'', ''carefree'', ''uplifting'']),
     (''cry'', [''emotional'', ''sad'', ''touching'']),
     (''child'', [''innocent'', ''joyful'', ''pure'']),
     (''baby'', [''cute'', ''gentle'', ''tender'']),
     (''dog'', [''friendly'', ''loyal'', ''playful'']),
     (''cat'', [''elegant'', ''mysterious'', ''independent'']),
     (''bird'', [''free'', ''graceful'', ''light'']),
     (''food'', [''appetizing'', ''delicious'', ''satisfying'']),
     (''drink'', [''refreshing'', ''inviting'', ''cool'']),
     (''old'', [''vintage'', ''nostalgic'', ''classic'']),
     (''new'', [''modern'', ''fresh'', ''contemporary'']),
     (''vintage'', [''nostalgic'', ''retro'', ''classic'']),
     (''abstract'', [''artistic'', ''imaginative'', ''creative'']),
     (''minimal'', [''clean'', ''simple'', ''focused'']),
     (''crowd'', [''busy'', ''chaotic'', ''lively'']),
     (''alone'', [''solitary'', ''quiet'', ''introspective'']),
     (''dance'', [''energetic'', ''expressive'', ''joyful'']),
     (''music'', [''rhythmic'', ''soulful'', ''emotional'']),
     (''light'', [''hopeful'', ''bright'', ''glowing'']),
     (''shadow'', [''dark'', ''mysterious'', ''introspective'']),
     (''fire'', [''intense'', ''hot'', ''powerful'']),
     (''night'', [''quiet'', ''romantic'', ''mysterious''])]"

text \<open>
  The Python \<open>set\<close> named \<open>tags\<close> is a duplicate-free list of its elements in the
  order they were first added. \<open>set_update\<close> is \<open>tags.update(xs)\<close>.
\<close>

definition set_add :: "string list \<Rightarrow> string \<Rightarrow> string list" where
  "set_add tags x = (if x \<in> set tags then tags else tags @ [x])"

definition set_update :: "string list \<Rightarrow> string list \<Rightarrow> string list" where
  "set_update tags xs = foldl set_add tags xs"

text \<open>
  The loop \<open>for keyword, associated_moods in mood_mappings.items()\<close>, run over the
  entries that are left, with the set built so far.
\<close>

fun collect_moods :: "(string \<times> string list) list \<Rightarrow> string \<Rightarrow> string list \<Rightarrow> string list" where
  "collect_moods [] caption_lower tags = tags"
| "collect_moods ((keyword, associated_moods) # rest) caption_lower tags =
     collect_moods rest caption_lower
       (if contains keyword caption_lower then set_update tags (take 2 associated_moods)
        else tags)"

text \<open>\<open>any(word in caption_lower for word in words)\<close>.\<close>

definition any_word_in :: "string list \<Rightarrow> string \<Rightarrow> bool" where
  "any_word_in words caption_lower = list_ex (\<lambda>word. contains word caption_lower) words"

text \<open>
  The set \<open>tags\<close> as it stands before \<open>list(tags)[:6]\<close>: the moods collected from the
  lexicon and, when there are none, one of the three fallback pairs.
\<close>

definition tag_set :: "string \<Rightarrow> string list" where
  "tag_set caption =
     (let caption_lower = lower caption;
          tags = collect_moods mood_mappings caption_lower []
      in if tags = [] then
           (if any_word_in [''beautiful'', ''nice'', ''good'', ''lovely''] caption_lower
              then set_update tags [''pleasant'', ''positive'']
            else if any_word_in [''sitting'', ''standing'', ''lying''] caption_lower
              then set_update tags [''calm'', ''relaxed'']
            else set_update tags [''neutral'', ''balanced''])
         else tags)"

text \<open>
  \<open>list(tags)\<close> lists a set in an order Python does not specify: it depends on the
  hashes of the strings, which change from one process to the next. The order is a
  parameter \<open>enum\<close> of the model, a function from the set as it was built to the list
  Python returns. \<open>set_listing enum\<close> says that \<open>enum\<close> is such a listing: every
  element once, none added.
\<close>

definition set_listing :: "(string list \<Rightarrow> string list) \<Rightarrow> bool" where
  "set_listing enum = (\<forall>xs. distinct xs \<longrightarrow> distinct (enum xs) \<and> set (enum xs) = set xs)"

definition extract_mood_tags :: "(string list \<Rightarrow> string list) \<Rightarrow> string \<Rightarrow> string list" where
  "extract_mood_tags enum caption = take 6 (enum (tag_set caption))"

text \<open>The lexicon entries whose keyword occurs in the lower-cased caption.\<close>

definition matched_entries :: "string \<Rightarrow> (string \<times> string list) list" where
  "matched_entries caption_lower = filter (\<lambda>(keyword, moods). contains keyword caption_lower) mood_mappings"

text \<open>One listing, used where a concrete one is needed: the order of insertion.\<close>

definition insertion_order :: "string list \<Rightarrow> string list" where
  "insertion_order xs = xs"

section \<open>Python values and exceptions\<close>

text \<open>
  A job is what \<open>json.loads\<close> returns: a JSON value. An object is the list of its
  members, read as a dict by \<open>map_of\<close>.
\<close>

datatype json =
    JNull
  | JBool bool
  | JNum int
  | JStr string
  | JArr "json list"
  | JObj "(string \<times> json) list"

text \<open>
  The exceptions of the program. \<open>Error m\<close> stands for an instance of any other
  subclass of \<open>Exception\<close> whose \<open>str\<close> is \<open>m\<close>. \<open>CancelledError\<close> is
  \<open>asyncio.CancelledError\<close>, a \<open>BaseException\<close> that \<open>except Exception\<close> lets through.
\<close>

datatype exn =
    KeyError string
  | TypeError string
  | AttributeError string
  | JSONDecodeError string
  | Error string
  | CancelledError

fun is_Exception :: "exn \<Rightarrow> bool" where
  "is_Exception CancelledError = False"
| "is_Exception e = True"

text \<open>\<open>str(e)\<close>; for a \<open>KeyError\<close> it is the \<open>repr\<close> of the key, in quotes.\<close>

fun str_exn :: "exn \<Rightarrow> string" where
  "str_exn (KeyError k) = [CHR 0x27] @ k @ [CHR 0x27]"
| "str_exn (TypeError m) = m"
| "str_exn (AttributeError m) = m"
| "str_exn (JSONDecodeError m) = m"
| "str_exn (Error m) = m"
| "str_exn CancelledError = []"

text \<open>\<open>type(v).__name__\<close> of a value that came out of \<open>json.loads\<close>.\<close>

fun type_name :: "json \<Rightarrow> string" where
  "type_name JNull = ''NoneType''"
| "type_name (JBool b) = ''bool''"
| "type_name (JNum n) = ''int''"
| "type_name (JStr s) = ''str''"
| "type_name (JArr xs) = ''list''"
| "type_name (JObj kvs) = ''dict''"

text \<open>\<open>v[key]\<close> with a string key: only a dict that has the key answers.\<close>

fun subscript :: "json \<Rightarrow> string \<Rightarrow> exn + json" where
  "subscript (JObj kvs) key =
     (case map_of kvs key of None \<Rightarrow> Inl (KeyError key) | Some v \<Rightarrow> Inr v)"
| "subscript (JStr s) key = Inl (TypeError ''string indices must be integers'')"
| "subscript (JArr xs) key = Inl (TypeError ''list indices must be integers or slices, not str'')"
| "subscript v key =
     Inl (TypeError ([CHR 0x27] @ type_name v @ [CHR 0x27] @ '' object is not subscriptable''))"

text \<open>\<open>v.get(key, dflt)\<close>: only a dict has the method.\<close>

fun py_get :: "json \<Rightarrow> string \<Rightarrow> json \<Rightarrow> exn + json" where
  "py_get (JObj kvs) key dflt =
     Inr (case map_of kvs key of None \<Rightarrow> dflt | Some v \<Rightarrow> v)"
| "py_get v key dflt =
     Inl (AttributeError ([CHR 0x27] @ type_name v @ [CHR 0x27] @ '' object has no attribute ''
            @ [CHR 0x27] @ ''get'' @ [CHR 0x27]))"

section \<open>The job processor: \<open>process_image\<close>\<close>

text \<open>
  The dict that \<open>process_image\<close> returns. A success carries \<open>data\<close> (tags and caption)
  and no \<open>error\<close>; a failure carries \<open>error\<close> and no \<open>data\<close>.
\<close>

record result =
  requestId :: json
  success :: bool
  data :: "(string list \<times> string) option"
  error :: "string option"
  worker :: string
  processedAt :: string

text \<open>
  What \<open>process_image\<close> calls and does not define: base64 decoding, the image library,
  the captioning model, the order in which a set is listed, and the worker identifier
  fixed at import. Each call either returns or raises an \<open>Exception\<close>; \<open>Inl m\<close> is an
  exception whose \<open>str\<close> is \<open>m\<close>. \<open>generate_caption\<close> stands for the lines from
  \<open>processor.apply_chat_template\<close> to \<open>processor.decode\<close>.
\<close>

record 'img collaborators =
  b64decode :: "json \<Rightarrow> string + string"
  image_open :: "string \<Rightarrow> string + 'img"
  image_mode :: "'img \<Rightarrow> string"
  convert :: "'img \<Rightarrow> string \<Rightarrow> string + 'img"
  generate_caption :: "'img \<Rightarrow> string + string"
  set_order :: "string list \<Rightarrow> string list"
  WORKER_ID :: string

text \<open>\<open>if not tags: tags = ['artistic', 'visual', 'expressive']\<close>.\<close>

definition tags_or_default :: "string list \<Rightarrow> string list" where
  "tags_or_default tags = (if tags = [] then [''artistic'', ''visual'', ''expressive''] else tags)"

text \<open>
  Sequencing of calls that may raise: the first exception ends the block.
  \<open>raising\<close> turns a collaborator's failure into the exception it raised.
\<close>

definition and_then :: "exn + 'a \<Rightarrow> ('a \<Rightarrow> exn + 'b) \<Rightarrow> exn + 'b" where
  "and_then r f = (case r of Inl e \<Rightarrow> Inl e | Inr v \<Rightarrow> f v)"

definition raising :: "string + 'a \<Rightarrow> exn + 'a" where
  "raising r = (case r of Inl m \<Rightarrow> Inl (Error m) | Inr v \<Rightarrow> Inr v)"

text \<open>The body of the \<open>try\<close>: \<open>Inl e\<close> when a line raises \<open>e\<close>, \<open>now\<close> the clock reading.\<close>

definition process_image_try :: "'img collaborators \<Rightarrow> string \<Rightarrow> json \<Rightarrow> exn + result" where
  "process_image_try env now job_data =
     and_then (subscript job_data ''requestId'') (\<lambda>request_id.
     and_then (subscript job_data ''fileName'') (\<lambda>file_name.
     and_then (subscript job_data ''imageData'') (\<lambda>image_data.
     and_then (raising (b64decode env image_data)) (\<lambda>image_bytes.
     and_then (raising (image_open env image_bytes)) (\<lambda>opened.
     and_then (if image_mode env opened \<noteq> ''RGB'' then raising (convert env opened ''RGB'')
               else Inr opened) (\<lambda>pil_image.
     and_then (raising (generate_caption env pil_image)) (\<lambda>caption.
       Inr \<lparr>requestId = request_id, success = True,
            data = Some (tags_or_default (extract_mood_tags (set_order env) caption), caption),
            error = None, worker = WORKER_ID env, processedAt = now\<rparr>)))))))"

text \<open>
  \<open>process_image\<close>: the \<open>try\<close> and its \<open>except Exception\<close> handler. The handler calls
  \<open>job_data.get\<close>, and what that raises leaves the function.
\<close>

definition process_image :: "'img collaborators \<Rightarrow> string \<Rightarrow> json \<Rightarrow> exn + result" where
  "process_image env now job_data =
     (case process_image_try env now job_data of
        Inr r \<Rightarrow> Inr r
      | Inl e \<Rightarrow>
          if is_Exception e then
            (case py_get job_data ''requestId'' (JStr ''unknown'') of
               Inl e' \<Rightarrow> Inl e'
             | Inr rid \<Rightarrow>
                 Inr \<lparr>requestId = rid, success = False, data = None,
                      error = Some (str_exn e), worker = WORKER_ID env, processedAt = now\<rparr>)
          else Inl e)"

section \<open>The worker loop: \<open>queue_worker\<close>\<close>

definition RESULT_CHANNEL :: string where
  "RESULT_CHANNEL = ''mood-results''"

text \<open>What the loop does to the outside: a call of \<open>publish\<close>, a call of \<open>asyncio.sleep\<close>.\<close>

datatype event = PublishCall string result | SleepCall nat

text \<open>
  What the outside does during one iteration: the answer of \<open>brpop\<close> (\<open>None\<close> after the
  timeout, else the pair of queue name and payload, or an exception), the answer of
  \<open>publish\<close>, whether the task is cancelled during \<open>asyncio.sleep\<close>, and the clock.
  A field is read only if the iteration gets to that call.
\<close>

record iteration_env =
  brpop :: "exn + (string \<times> string) option"
  publish :: "exn + unit"
  sleep_cancelled :: bool
  clock :: string

text \<open>
  The body of the inner \<open>try\<close>: the calls of \<open>publish\<close> it made and the exception it
  raised, if any. \<open>loads\<close> is \<open>json.loads\<close>.
\<close>

definition dispatch_job ::
  "'img collaborators \<Rightarrow> (string \<Rightarrow> exn + json) \<Rightarrow> iteration_env \<Rightarrow> string \<Rightarrow> event list \<times> exn option" where
  "dispatch_job env loads it job_data =
     (case and_then (loads job_data) (\<lambda>job.
           and_then (subscript job ''requestId'') (\<lambda>logged_id.
           process_image env (clock it) job)) of
        Inl e \<Rightarrow> ([], Some e)
      | Inr res \<Rightarrow>
          ([PublishCall RESULT_CHANNEL res],
           (case publish it of Inl e \<Rightarrow> Some e | Inr u \<Rightarrow> None)))"

text \<open>
  The inner \<open>try\<close> with its handlers \<open>except json.JSONDecodeError\<close> and
  \<open>except Exception\<close>: both log and go on, anything else passes through.
\<close>

definition inner_try ::
  "'img collaborators \<Rightarrow> (string \<Rightarrow> exn + json) \<Rightarrow> iteration_env \<Rightarrow> string \<Rightarrow> event list \<times> exn option" where
  "inner_try env loads it job_data =
     (case dispatch_job env loads it job_data of
        (evs, None) \<Rightarrow> (evs, None)
      | (evs, Some (JSONDecodeError m)) \<Rightarrow> (evs, None)
      | (evs, Some e) \<Rightarrow> if is_Exception e then (evs, None) else (evs, Some e))"

text \<open>The body of the outer \<open>try\<close>: \<open>brpop\<close>, then the job if there is one.\<close>

definition outer_try ::
  "'img collaborators \<Rightarrow> (string \<Rightarrow> exn + json) \<Rightarrow> iteration_env \<Rightarrow> event list \<times> exn option" where
  "outer_try env loads it =
     (case brpop it of
        Inl e \<Rightarrow> ([], Some e)
      | Inr None \<Rightarrow> ([], None)
      | Inr (Some (queue_name, job_data)) \<Rightarrow> inner_try env loads it job_data)"

datatype control = Continue | Break | Propagate exn

text \<open>
  One pass through the body of \<open>while True\<close>: the outer \<open>try\<close>, then
  \<open>except asyncio.CancelledError: break\<close> and \<open>except Exception\<close> with its
  \<open>await asyncio.sleep(5)\<close>.
\<close>

definition iteration ::
  "'img collaborators \<Rightarrow> (string \<Rightarrow> exn + json) \<Rightarrow> iteration_env \<Rightarrow> event list \<times> control" where
  "iteration env loads it =
     (case outer_try env loads it of
        (evs, None) \<Rightarrow> (evs, Continue)
      | (evs, Some e) \<Rightarrow>
          if e = CancelledError then (evs, Break)
          else if is_Exception e then
            (evs @ [SleepCall 5],
             if sleep_cancelled it then Propagate CancelledError else Continue)
          else (evs, Propagate e))"

text \<open>
  The loop, run against a finite script of what the outside does, one entry for each
  iteration. \<open>Running\<close>: the script is used up and the loop is still going.
  \<open>Stopped\<close>: the loop left through \<open>break\<close> and the coroutine returned.
  \<open>Raised e\<close>: the coroutine ended with the exception \<open>e\<close>.
\<close>

datatype worker_status = Running | Stopped | Raised exn

fun queue_worker ::
  "'img collaborators \<Rightarrow> (string \<Rightarrow> exn + json) \<Rightarrow> iteration_env list \<Rightarrow> event list \<times> worker_status" where
  "queue_worker env loads [] = ([], Running)"
| "queue_worker env loads (it # its) =
     (case iteration env loads it of
        (evs, Continue) \<Rightarrow>
          (case queue_worker env loads its of (evs', st) \<Rightarrow> (evs @ evs', st))
      | (evs, Break) \<Rightarrow> (evs, Stopped)
      | (evs, Propagate e) \<Rightarrow> (evs, Raised e))"

definition publish_calls :: "event list \<Rightarrow> nat" where
  "publish_calls evs = length (filter (\<lambda>ev. case ev of PublishCall ch r \<Rightarrow> True | SleepCall n \<Rightarrow> False) evs)"

section \<open>Startup: \<open>load_model\<close> and \<open>startup_event\<close>\<close>

text \<open>The module's globals, each as whether it has been set.\<close>

record globals =
  processor_set :: bool
  model_set :: bool
  redis_client_set :: bool
  worker_task_set :: bool

text \<open>What the outside answers during startup.\<close>

record startup_env =
  processor_from_pretrained :: "string + unit"
  model_from_pretrained :: "string + unit"
  redis_from_url :: "string + unit"
  ping :: "exn + unit"

definition load_model :: "startup_env \<Rightarrow> globals \<Rightarrow> bool \<times> globals" where
  "load_model senv g =
     (case processor_from_pretrained senv of
        Inl m \<Rightarrow> (False, g)
      | Inr u \<Rightarrow>
          (case model_from_pretrained senv of
             Inl m \<Rightarrow> (False, g\<lparr>processor_set := True\<rparr>)
           | Inr u' \<Rightarrow> (True, g\<lparr>processor_set := True, model_set := True\<rparr>)))"

text \<open>
  \<open>startup_event\<close>: the globals when it ends, and the exception it ends with, if any.
  \<open>worker_task_set\<close> becomes true at \<open>asyncio.create_task(queue_worker())\<close>.
\<close>

definition startup_event :: "startup_env \<Rightarrow> globals \<Rightarrow> globals \<times> exn option" where
  "startup_event senv g =
     (case load_model senv g of
        (False, g1) \<Rightarrow> (g1, None)
      | (True, g1) \<Rightarrow>
          (case redis_from_url senv of
             Inl m \<Rightarrow> (g1, None)
           | Inr u \<Rightarrow>
               (case ping senv of
                  Inl e \<Rightarrow>
                    if is_Exception e then (g1\<lparr>redis_client_set := True\<rparr>, None)
                    else (g1\<lparr>redis_client_set := True\<rparr>, Some e)
                | Inr u' \<Rightarrow> (g1\<lparr>redis_client_set := True, worker_task_set := True\<rparr>, None))))"

definition initial_globals :: globals where
  "initial_globals =
     \<lparr>processor_set = False, model_set = False, redis_client_set = False, worker_task_set = False\<rparr>"


section \<open>Predicates and test doubles used to state the properties\<close>

text \<open>Every failure of a collaborator comes with a message: none raises with an empty \<open>str\<close>.\<close>

definition nonempty_messages :: "'img collaborators \<Rightarrow> bool" where
  "nonempty_messages env =
     ((\<forall>v. b64decode env v \<noteq> Inl []) \<and> (\<forall>b. image_open env b \<noteq> Inl [])
      \<and> (\<forall>i m. convert env i m \<noteq> Inl []) \<and> (\<forall>i. generate_caption env i \<noteq> Inl []))"

text \<open>
  The task is cancelled during this iteration, at a point where the loop is waiting:
  inside the outer \<open>try\<close> (in \<open>brpop\<close> or in \<open>publish\<close>), or in the
  \<open>asyncio.sleep(5)\<close> of the handler, which runs only after an error in the \<open>try\<close>.
\<close>

definition cancellation_seen ::
  "'img collaborators \<Rightarrow> (string \<Rightarrow> exn + json) \<Rightarrow> iteration_env \<Rightarrow> bool" where
  "cancellation_seen env loads it =
     (case snd (outer_try env loads it) of
        None \<Rightarrow> False
      | Some e \<Rightarrow> e = CancelledError \<or> sleep_cancelled it)"

text \<open>
  Collaborators for the examples. The images are named by a description. Base64 text
  other than the two known strings fails as \<open>binascii.Error\<close> does, bytes other than
  the known picture fail as \<open>PIL.UnidentifiedImageError\<close> does.
\<close>

definition example_collaborators :: "string collaborators" where
  "example_collaborators =
     \<lparr>b64decode = (\<lambda>v. if v = JStr ''cGl4ZWxz'' then Inr ''pixels''
                        else if v = JStr ''aGVsbG8='' then Inr ''hello''
                        else Inl ''Incorrect padding''),
      image_open = (\<lambda>b. if b = ''pixels'' then Inr ''photo of a beach''
                         else Inl ''cannot identify image file''),
      image_mode = (\<lambda>i. ''RGBA''),
      convert = (\<lambda>i m. Inr i),
      generate_caption = (\<lambda>i. Inr ''A sunny beach with bright colors''),
      set_order = insertion_order,
      WORKER_ID = ''mood-worker-4242''\<rparr>"

definition quoted :: "string \<Rightarrow> string" where
  "quoted s = [CHR 0x22] @ s @ [CHR 0x22]"

definition job_r1 :: json where
  "job_r1 = JObj [(''requestId'', JStr ''r1''), (''fileName'', JStr ''beach.png''),
                  (''imageData'', JStr ''not-valid-base64!'')]"

definition payload_r1 :: string where
  "payload_r1 = ''{'' @ quoted ''requestId'' @ '': '' @ quoted ''r1'' @ '', ''
                  @ quoted ''fileName'' @ '': '' @ quoted ''beach.png'' @ '', ''
                  @ quoted ''imageData'' @ '': '' @ quoted ''not-valid-base64!'' @ ''}''"

definition job_r2 :: json where
  "job_r2 = JObj [(''requestId'', JStr ''r2''), (''fileName'', JStr ''beach.png''),
                  (''imageData'', JStr ''cGl4ZWxz'')]"

definition payload_r2 :: string where
  "payload_r2 = ''{'' @ quoted ''requestId'' @ '': '' @ quoted ''r2'' @ '', ''
                  @ quoted ''fileName'' @ '': '' @ quoted ''beach.png'' @ '', ''
                  @ quoted ''imageData'' @ '': '' @ quoted ''cGl4ZWxz'' @ ''}''"

text \<open>
  \<open>json.loads\<close> on the payloads of the examples: the two jobs above, the empty object,
  the empty array; any other text of the examples is not JSON.
\<close>

definition example_loads :: "string \<Rightarrow> exn + json" where
  "example_loads s =
     (if s = payload_r1 then Inr job_r1
      else if s = payload_r2 then Inr job_r2
      else if s = ''{}'' then Inr (JObj [])
      else if s = ''[]'' then Inr (JArr [])
      else Inl (JSONDecodeError ''Expecting value: line 1 column 1 (char 0)''))"

text \<open>
  Four iterations for the examples: \<open>brpop\<close> fails with a connection error, \<open>brpop\<close>
  times out, the task is cancelled while it waits in \<open>brpop\<close>, and \<open>brpop\<close> fails and
  the task is cancelled during the sleep that follows.
\<close>

definition pop_fails :: iteration_env where
  "pop_fails = \<lparr>brpop = Inl (Error ''Connection refused''), publish = Inr (),
                 sleep_cancelled = False, clock = ''2026-11-04T10:00:00''\<rparr>"

definition pop_times_out :: iteration_env where
  "pop_times_out = \<lparr>brpop = Inr None, publish = Inr (),
                     sleep_cancelled = False, clock = ''2026-11-04T10:00:30''\<rparr>"

definition pop_cancelled :: iteration_env where
  "pop_cancelled = \<lparr>brpop = Inl CancelledError, publish = Inr (),
                     sleep_cancelled = False, clock = ''2026-11-04T10:00:40''\<rparr>"

definition pop_fails_sleep_cancelled :: iteration_env where
  "pop_fails_sleep_cancelled = \<lparr>brpop = Inl (Error ''Connection refused''), publish = Inr (),
                                 sleep_cancelled = True, clock = ''2026-11-04T10:00:50''\<rparr>"

text \<open>Startup where the model loads and the queue does not answer, and where both work.\<close>

definition queue_unreachable :: startup_env where
  "queue_unreachable = \<lparr>processor_from_pretrained = Inr (), model_from_pretrained = Inr (),
                         redis_from_url = Inr (), ping = Inl (Error ''Connection refused'')\<rparr>"

definition all_reachable :: startup_env where
  "all_reachable = \<lparr>processor_from_pretrained = Inr (), model_from_pretrained = Inr (),
                     redis_from_url = Inr (), ping = Inr ()\<rparr>"

text \<open>Whether each step of startup went through.\<close>

definition model_loads :: "startup_env \<Rightarrow> bool" where
  "model_loads senv = (\<not> isl (processor_from_pretrained senv) \<and> \<not> isl (model_from_pretrained senv))"

definition queue_answers :: "startup_env \<Rightarrow> bool" where
  "queue_answers senv = (\<not> isl (redis_from_url senv) \<and> \<not> isl (ping senv))"

section \<open>Facts about the string and set operations\<close>

text \<open>\<open>contains\<close> is the substring test: some prefix and suffix surround \<open>sub\<close>.\<close>

lemma starts_with_iff: "starts_with sub s \<longleftrightarrow> (\<exists>q. s = sub @ q)"
  by (induction sub arbitrary: s) (auto split: list.splits)

lemma contains_iff: "contains sub s \<longleftrightarrow> (\<exists>p q. s = p @ sub @ q)"
proof (induction s)
  case Nil
  then show ?case by auto
next
  case (Cons c cs)
  show ?case
  proof
    assume "contains sub (c # cs)"
    then consider "starts_with sub (c # cs)" | "contains sub cs" by auto
    then show "\<exists>p q. c # cs = p @ sub @ q"
    proof cases
      case 1
      then obtain q where "c # cs = sub @ q" using starts_with_iff by blast
      then have "c # cs = [] @ sub @ q" by simp
      then show ?thesis by blast
    next
      case 2
      then obtain p q where "cs = p @ sub @ q" using Cons.IH by blast
      then have "c # cs = (c # p) @ sub @ q" by simp
      then show ?thesis by blast
    qed
  next
    assume "\<exists>p q. c # cs = p @ sub @ q"
    then obtain p q where pq: "c # cs = p @ sub @ q" by blast
    show "contains sub (c # cs)"
    proof (cases p)
      case Nil
      with pq have "starts_with sub (c # cs)" using starts_with_iff by auto
      then show ?thesis by simp
    next
      case (Cons a p')
      with pq have "cs = p' @ sub @ q" by simp
      then have "contains sub cs" using Cons.IH by blast
      then show ?thesis by simp
    qed
  qed
qed

lemma contains_Nil: "contains sub [] \<longleftrightarrow> sub = []"
  by simp

lemma set_add_set: "set (set_add tags x) = insert x (set tags)"
  by (auto simp: set_add_def)

lemma set_add_distinct: "distinct tags \<Longrightarrow> distinct (set_add tags x)"
  by (simp add: set_add_def)

lemma set_add_length: "length (set_add tags x) \<le> Suc (length tags)"
  by (simp add: set_add_def)

lemma set_update_set: "set (set_update tags xs) = set tags \<union> set xs"
  unfolding set_update_def
  by (induction xs arbitrary: tags) (auto simp: set_add_set)

lemma set_update_distinct: "distinct tags \<Longrightarrow> distinct (set_update tags xs)"
  unfolding set_update_def
  by (induction xs arbitrary: tags) (auto simp: set_add_distinct)

lemma set_update_length: "length (set_update tags xs) \<le> length tags + length xs"
  unfolding set_update_def
proof (induction xs arbitrary: tags)
  case Nil
  then show ?case by simp
next
  case (Cons x xs)
  have "length (foldl set_add (set_add tags x) xs) \<le> length (set_add tags x) + length xs"
    by (rule Cons.IH)
  also have "\<dots> \<le> Suc (length tags) + length xs"
    using set_add_length [of tags x] by simp
  finally show ?case by simp
qed

text \<open>
  The loop adds, to what was there, the first two moods of each entry whose keyword occurs.
\<close>

lemma collect_moods_set:
  "set (collect_moods ms cl tags) =
     set tags \<union> (\<Union>(k, moods) \<in> set ms. if contains k cl then set (take 2 moods) else {})"
  by (induction ms cl tags rule: collect_moods.induct) (auto simp: set_update_set)

lemma collect_moods_distinct: "distinct tags \<Longrightarrow> distinct (collect_moods ms cl tags)"
  by (induction ms cl tags rule: collect_moods.induct) (auto simp: set_update_distinct)

lemma collect_moods_length:
  "length (collect_moods ms cl tags) \<le>
     length tags + 2 * length (filter (\<lambda>(k, moods). contains k cl) ms)"
proof (induction ms cl tags rule: collect_moods.induct)
  case (1 cl tags)
  then show ?case by simp
next
  case (2 keyword associated_moods rest cl tags)
  show ?case
  proof (cases "contains keyword cl")
    case True
    have "length (set_update tags (take 2 associated_moods)) \<le> length tags + 2"
      using set_update_length [of tags "take 2 associated_moods"] by simp
    with 2 True show ?thesis by simp
  next
    case False
    with 2 show ?thesis by simp
  qed
qed


section \<open>Facts about the tag deriver\<close>

lemma mood_mappings_three: "list_all (\<lambda>(k, moods). length moods = 3) mood_mappings"
  by (simp add: mood_mappings_def)

lemma entry_moods_nonempty:
  assumes "(k, moods) \<in> set mood_mappings"
  shows "take 2 moods \<noteq> []"
proof -
  have "length moods = 3"
    using assms mood_mappings_three by (auto simp: list_all_iff)
  then show ?thesis by auto
qed

lemma matched_entries_set:
  "set (matched_entries cl) = {(k, moods). (k, moods) \<in> set mood_mappings \<and> contains k cl}"
  by (auto simp: matched_entries_def)

lemma lexicon_tags_set:
  "set (collect_moods mood_mappings cl []) = (\<Union>(k, moods) \<in> set (matched_entries cl). set (take 2 moods))"
  by (auto simp: collect_moods_set matched_entries_set split: if_splits)

lemma lexicon_tags_empty_iff:
  "collect_moods mood_mappings cl [] = [] \<longleftrightarrow> matched_entries cl = []"
proof
  assume "collect_moods mood_mappings cl [] = []"
  then have e: "(\<Union>(k, moods) \<in> set (matched_entries cl). set (take 2 moods)) = {}"
    using lexicon_tags_set [of cl] by simp
  show "matched_entries cl = []"
  proof (rule ccontr)
    assume "matched_entries cl \<noteq> []"
    then obtain k moods where km: "(k, moods) \<in> set (matched_entries cl)"
      by (cases "matched_entries cl") auto
    then have "(k, moods) \<in> set mood_mappings" by (simp add: matched_entries_set)
    then have "take 2 moods \<noteq> []" by (rule entry_moods_nonempty)
    then obtain t where "t \<in> set (take 2 moods)" by (cases "take 2 moods") auto
    with km have "t \<in> (\<Union>(k, moods) \<in> set (matched_entries cl). set (take 2 moods))" by blast
    with e show False by simp
  qed
next
  assume "matched_entries cl = []"
  then have "set (collect_moods mood_mappings cl []) = {}"
    using lexicon_tags_set [of cl] by simp
  then show "collect_moods mood_mappings cl [] = []" by simp
qed

lemma tag_set_lexicon:
  "matched_entries (lower caption) \<noteq> [] \<Longrightarrow>
     tag_set caption = collect_moods mood_mappings (lower caption) []"
  by (simp add: tag_set_def Let_def lexicon_tags_empty_iff)

lemma pair_update: "a \<noteq> b \<Longrightarrow> set_update [] [a, b] = [a, b]"
  by (simp add: set_update_def set_add_def)

lemma tag_set_fallback:
  "matched_entries (lower caption) = [] \<Longrightarrow>
     tag_set caption =
       (if any_word_in [''beautiful'', ''nice'', ''good'', ''lovely''] (lower caption)
          then [''pleasant'', ''positive'']
        else if any_word_in [''sitting'', ''standing'', ''lying''] (lower caption)
          then [''calm'', ''relaxed'']
        else [''neutral'', ''balanced''])"
proof -
  assume "matched_entries (lower caption) = []"
  then have e: "collect_moods mood_mappings (lower caption) [] = []"
    by (simp add: lexicon_tags_empty_iff)
  show ?thesis
    unfolding tag_set_def Let_def e by (simp add: pair_update)
qed

lemma tag_set_distinct: "distinct (tag_set caption)"
proof (cases "matched_entries (lower caption) = []")
  case True
  then show ?thesis by (simp add: tag_set_fallback)
next
  case False
  then show ?thesis by (simp add: tag_set_lexicon collect_moods_distinct)
qed

lemma tag_set_nonempty: "tag_set caption \<noteq> []"
proof (cases "matched_entries (lower caption) = []")
  case True
  then show ?thesis by (simp add: tag_set_fallback)
next
  case False
  then show ?thesis by (simp add: tag_set_lexicon lexicon_tags_empty_iff)
qed

lemma listing_length:
  assumes "set_listing enum" and "distinct xs"
  shows "length (enum xs) = length xs"
proof -
  from assms have d: "distinct (enum xs)" and s: "set (enum xs) = set xs"
    by (simp_all add: set_listing_def)
  have "length (enum xs) = card (set (enum xs))" using d by (simp add: distinct_card)
  also have "\<dots> = card (set xs)" using s by simp
  also have "\<dots> = length xs" using assms(2) by (simp add: distinct_card)
  finally show ?thesis .
qed

lemma listing_insertion_order: "set_listing insertion_order"
  by (simp add: set_listing_def insertion_order_def)

lemma listing_rev: "set_listing rev"
  by (simp add: set_listing_def)

lemma extract_distinct:
  assumes "set_listing enum"
  shows "distinct (extract_mood_tags enum caption)"
proof -
  have "distinct (enum (tag_set caption))"
    using assms tag_set_distinct by (simp add: set_listing_def)
  then show ?thesis by (simp add: extract_mood_tags_def)
qed

lemma extract_subset:
  assumes "set_listing enum"
  shows "set (extract_mood_tags enum caption) \<subseteq> set (tag_set caption)"
proof -
  have "set (enum (tag_set caption)) = set (tag_set caption)"
    using assms tag_set_distinct by (simp add: set_listing_def)
  then show ?thesis
    using set_take_subset [of 6 "enum (tag_set caption)"] by (simp add: extract_mood_tags_def)
qed

lemma extract_untruncated:
  assumes "set_listing enum" and "length (tag_set caption) \<le> 6"
  shows "extract_mood_tags enum caption = enum (tag_set caption)"
  using assms listing_length [OF assms(1) tag_set_distinct, of caption]
  by (simp add: extract_mood_tags_def)

lemma extract_set_untruncated:
  assumes "set_listing enum" and "length (tag_set caption) \<le> 6"
  shows "set (extract_mood_tags enum caption) = set (tag_set caption)"
  using extract_untruncated [OF assms] assms(1) tag_set_distinct
  by (simp add: set_listing_def)

lemma extract_length:
  assumes "set_listing enum"
  shows "length (extract_mood_tags enum caption) = min 6 (length (tag_set caption))"
  using listing_length [OF assms tag_set_distinct, of caption]
  by (simp add: extract_mood_tags_def min_def)

section \<open>Size of the derived tag list\<close>

text \<open>
  Claim C3. For every caption and every order in which Python may list the set,
  \<open>extract_mood_tags\<close> returns between 1 and 6 tags, no tag twice. So the list is
  never empty and the substitution of the default tags in \<open>process_image\<close>
  (\<open>tags_or_default\<close>) leaves it as it is: that branch is never taken.
\<close>

theorem extract_mood_tags_size:
  assumes "set_listing enum"
  shows "1 \<le> length (extract_mood_tags enum caption)
       \<and> length (extract_mood_tags enum caption) \<le> 6
       \<and> distinct (extract_mood_tags enum caption)
       \<and> tags_or_default (extract_mood_tags enum caption) = extract_mood_tags enum caption"
proof -
  have n: "0 < length (tag_set caption)" using tag_set_nonempty by simp
  have l: "length (extract_mood_tags enum caption) = min 6 (length (tag_set caption))"
    by (rule extract_length [OF assms])
  have p: "0 < length (extract_mood_tags enum caption)"
    using l n by (simp add: min_def)
  then have ne: "extract_mood_tags enum caption \<noteq> []" by auto
  have u: "length (extract_mood_tags enum caption) \<le> 6"
    using l by simp
  have t: "tags_or_default (extract_mood_tags enum caption) = extract_mood_tags enum caption"
    using ne by (simp add: tags_or_default_def)
  have p1: "1 \<le> length (extract_mood_tags enum caption)"
    using p by linarith
  show ?thesis
    using p1 u t extract_distinct [OF assms, of caption] by blast
qed

theorem extract_mood_tags_size_witness:
  "set_listing rev
   \<and> 1 \<le> length (extract_mood_tags rev ''Dark storm over the city at night'')
   \<and> length (extract_mood_tags rev ''Dark storm over the city at night'') \<le> 6
   \<and> distinct (extract_mood_tags rev ''Dark storm over the city at night'')
   \<and> tags_or_default (extract_mood_tags rev ''Dark storm over the city at night'')
       = extract_mood_tags rev ''Dark storm over the city at night''
   \<and> extract_mood_tags rev ''Dark storm over the city at night''
       = [''romantic'', ''quiet'', ''dynamic'', ''urban'', ''powerful'', ''chaotic'']"
proof -
  have e: "extract_mood_tags rev ''Dark storm over the city at night''
       = [''romantic'', ''quiet'', ''dynamic'', ''urban'', ''powerful'', ''chaotic'']"
    by code_simp
  show ?thesis
    using extract_mood_tags_size [OF listing_rev, of "''Dark storm over the city at night''"]
      listing_rev e by simp
qed


section \<open>Lexicon keywords and their moods\<close>

lemma matched_entry_moods_in_tag_set:
  assumes "(keyword, moods) \<in> set mood_mappings" and "contains keyword (lower caption)"
  shows "set (take 2 moods) \<subseteq> set (tag_set caption)"
proof -
  have m: "(keyword, moods) \<in> set (matched_entries (lower caption))"
    using assms by (simp add: matched_entries_set)
  then have "matched_entries (lower caption) \<noteq> []" by auto
  then have "tag_set caption = collect_moods mood_mappings (lower caption) []"
    by (rule tag_set_lexicon)
  then have "set (tag_set caption) =
      (\<Union>(k, ms) \<in> set (matched_entries (lower caption)). set (take 2 ms))"
    by (simp add: lexicon_tags_set)
  with m show ?thesis by blast
qed

lemma few_keywords_few_tags:
  assumes "length (matched_entries (lower caption)) \<le> 3"
  shows "length (tag_set caption) \<le> 6"
proof (cases "matched_entries (lower caption) = []")
  case True
  then show ?thesis by (simp add: tag_set_fallback)
next
  case False
  then have "tag_set caption = collect_moods mood_mappings (lower caption) []"
    by (rule tag_set_lexicon)
  moreover have "length (collect_moods mood_mappings (lower caption) []) \<le>
      length ([] :: string list) + 2 * length (matched_entries (lower caption))"
    unfolding matched_entries_def by (rule collect_moods_length)
  ultimately show ?thesis using assms by simp
qed

lemma mood_mappings_first_two_differ:
  "list_all (\<lambda>(keyword, moods). distinct (take 2 moods)) mood_mappings"
  by (simp add: mood_mappings_def)

lemma entry_moods_two_distinct:
  assumes "(keyword, moods) \<in> set mood_mappings"
  shows "card (set (take 2 moods)) = 2"
proof -
  have l: "length moods = 3"
    using assms mood_mappings_three by (auto simp: list_all_iff)
  have d: "distinct (take 2 moods)"
    using assms mood_mappings_first_two_differ by (auto simp: list_all_iff)
  have "card (set (take 2 moods)) = length (take 2 moods)"
    using d by (rule distinct_card)
  with l show ?thesis by simp
qed

text \<open>
  Of seven tags, \<open>list(tags)[:6]\<close> drops one: of the two moods of a keyword, which
  differ, one at least stays.
\<close>

lemma one_mood_survives:
  assumes "set_listing enum"
    and "(keyword, moods) \<in> set mood_mappings"
    and "contains keyword (lower caption)"
    and "length (tag_set caption) \<le> 7"
  shows "set (take 2 moods) \<inter> set (extract_mood_tags enum caption) \<noteq> {}"
proof
  let ?L = "enum (tag_set caption)"
  assume e: "set (take 2 moods) \<inter> set (extract_mood_tags enum caption) = {}"
  have sL: "set ?L = set (tag_set caption)"
    using assms(1) tag_set_distinct by (simp add: set_listing_def)
  have lL: "length ?L \<le> 7"
    using listing_length [OF assms(1) tag_set_distinct, of caption] assms(4) by simp
  have "set (take 2 moods) \<subseteq> set ?L"
    using matched_entry_moods_in_tag_set [OF assms(2,3)] sL by simp
  also have "set ?L = set (take 6 ?L) \<union> set (drop 6 ?L)"
    using set_append [of "take 6 ?L" "drop 6 ?L"] by simp
  finally have "set (take 2 moods) \<subseteq> set (drop 6 ?L)"
    using e by (auto simp: extract_mood_tags_def)
  then have "card (set (take 2 moods)) \<le> card (set (drop 6 ?L))"
    by (intro card_mono) simp_all
  also have "\<dots> \<le> length (drop 6 ?L)" by (rule card_length)
  also have "\<dots> \<le> 1" using lL by simp
  finally show False
    using entry_moods_two_distinct [OF assms(2)] by simp
qed

text \<open>
  From eight collected tags on, some listing of the set puts the two moods of the
  keyword last, and \<open>list(tags)[:6]\<close> drops both.
\<close>

lemma both_moods_droppable:
  assumes "(keyword, moods) \<in> set mood_mappings"
    and "8 \<le> length (tag_set caption)"
  shows "\<exists>enum. set_listing enum
           \<and> set (take 2 moods) \<inter> set (extract_mood_tags enum caption) = {}"
proof -
  define P where "P = set (take 2 moods)"
  define enum where "enum = (\<lambda>xs :: string list. filter (\<lambda>x. x \<notin> P) xs @ filter (\<lambda>x. x \<in> P) xs)"
  have listing: "set_listing enum"
    by (auto simp: set_listing_def enum_def)
  let ?T = "tag_set caption"
  have dT: "distinct ?T" by (rule tag_set_distinct)
  have "distinct (filter (\<lambda>x. x \<in> P) ?T)" using dT by simp
  then have "length (filter (\<lambda>x. x \<in> P) ?T) = card (set (filter (\<lambda>x. x \<in> P) ?T))"
    by (rule distinct_card [symmetric])
  also have "\<dots> \<le> card P"
    by (intro card_mono) (auto simp: P_def)
  also have "\<dots> = 2" unfolding P_def using assms(1) by (rule entry_moods_two_distinct)
  finally have inP: "length (filter (\<lambda>x. x \<in> P) ?T) \<le> 2" .
  have "length ?T = length (filter (\<lambda>x. x \<notin> P) ?T) + length (filter (\<lambda>x. x \<in> P) ?T)"
    using sum_length_filter_compl [of "\<lambda>x. x \<notin> P" ?T] by simp
  with inP assms(2) have out: "6 \<le> length (filter (\<lambda>x. x \<notin> P) ?T)" by simp
  have "extract_mood_tags enum caption = take 6 (filter (\<lambda>x. x \<notin> P) ?T)"
    using out by (simp add: extract_mood_tags_def enum_def)
  then have "set (extract_mood_tags enum caption) \<subseteq> set (filter (\<lambda>x. x \<notin> P) ?T)"
    using set_take_subset [of 6 "filter (\<lambda>x. x \<notin> P) ?T"] by simp
  then have "P \<inter> set (extract_mood_tags enum caption) = {}" by auto
  with listing show ?thesis unfolding P_def by blast
qed

lemma blue_rain_sky_city_tag_set:
  "tag_set ''Blue rain, sky, city'' =
     [''cool'', ''calm'', ''melancholic'', ''urban'', ''dynamic'', ''open'', ''free'']"
  by code_simp

text \<open>
  Claim C4, as the code has it. For every caption whose lower-cased form contains a
  lexicon keyword, both of that keyword's first two moods are in the set collected
  before \<open>list(tags)[:6]\<close>. The returned list includes at least one of them whenever
  at most seven tags were collected, and both whenever at most six were, which is so
  when at most three keywords occur in the caption.
\<close>

theorem keyword_moods_returned:
  assumes "set_listing enum"
    and "(keyword, moods) \<in> set mood_mappings"
    and "contains keyword (lower caption)"
  shows "take 2 moods \<noteq> []
       \<and> set (take 2 moods) \<subseteq> set (tag_set caption)
       \<and> (length (tag_set caption) \<le> 7 \<longrightarrow>
            set (take 2 moods) \<inter> set (extract_mood_tags enum caption) \<noteq> {})
       \<and> (length (tag_set caption) \<le> 6 \<longrightarrow>
            set (take 2 moods) \<subseteq> set (extract_mood_tags enum caption))
       \<and> (length (matched_entries (lower caption)) \<le> 3 \<longrightarrow> length (tag_set caption) \<le> 6)"
proof -
  have a: "take 2 moods \<noteq> []" using assms(2) by (rule entry_moods_nonempty)
  have b: "set (take 2 moods) \<subseteq> set (tag_set caption)"
    using assms(2,3) by (rule matched_entry_moods_in_tag_set)
  have s: "set (take 2 moods) \<inter> set (extract_mood_tags enum caption) \<noteq> {}"
    if "length (tag_set caption) \<le> 7"
    using assms that by (rule one_mood_survives)
  have c: "set (take 2 moods) \<subseteq> set (extract_mood_tags enum caption)"
    if "length (tag_set caption) \<le> 6"
    using b extract_set_untruncated [OF assms(1) that] by simp
  have d: "length (tag_set caption) \<le> 6" if "length (matched_entries (lower caption)) \<le> 3"
    using that by (rule few_keywords_few_tags)
  show ?thesis using a b s c d by blast
qed

theorem keyword_moods_returned_witness:
  "set_listing rev
   \<and> (''beach'', [''relaxing'', ''tropical'', ''carefree'']) \<in> set mood_mappings
   \<and> contains ''beach'' (lower ''Sunset at the BEACH'')
   \<and> length (matched_entries (lower ''Sunset at the BEACH'')) \<le> 3
   \<and> length (tag_set ''Sunset at the BEACH'') \<le> 6
   \<and> {''relaxing'', ''tropical''} \<subseteq> set (tag_set ''Sunset at the BEACH'')
   \<and> {''relaxing'', ''tropical''} \<subseteq> set (extract_mood_tags rev ''Sunset at the BEACH'')
   \<and> (''blue'', [''cool'', ''calm'', ''peaceful'']) \<in> set mood_mappings
   \<and> contains ''blue'' (lower ''Blue rain, sky, city'')
   \<and> length (tag_set ''Blue rain, sky, city'') = 7
   \<and> {''cool'', ''calm''} \<inter> set (extract_mood_tags rev ''Blue rain, sky, city'') \<noteq> {}
   \<and> extract_mood_tags rev ''Blue rain, sky, city''
       = [''free'', ''open'', ''dynamic'', ''urban'', ''melancholic'', ''calm'']"
proof -
  have h2: "(''beach'', [''relaxing'', ''tropical'', ''carefree'']) \<in> set mood_mappings"
    by (simp add: mood_mappings_def)
  have h3: "contains ''beach'' (lower ''Sunset at the BEACH'')"
    by code_simp
  have h4: "length (matched_entries (lower ''Sunset at the BEACH'')) \<le> 3"
    by code_simp
  have k2: "(''blue'', [''cool'', ''calm'', ''peaceful'']) \<in> set mood_mappings"
    by (simp add: mood_mappings_def)
  have k3: "contains ''blue'' (lower ''Blue rain, sky, city'')"
    by code_simp
  have k4: "length (tag_set ''Blue rain, sky, city'') = 7"
    by (simp add: blue_rain_sky_city_tag_set)
  have k5: "extract_mood_tags rev ''Blue rain, sky, city''
       = [''free'', ''open'', ''dynamic'', ''urban'', ''melancholic'', ''calm'']"
    by (simp add: extract_mood_tags_def blue_rain_sky_city_tag_set)
  have w1: "length (tag_set ''Sunset at the BEACH'') \<le> 6
      \<and> {''relaxing'', ''tropical''} \<subseteq> set (tag_set ''Sunset at the BEACH'')
      \<and> {''relaxing'', ''tropical''} \<subseteq> set (extract_mood_tags rev ''Sunset at the BEACH'')"
    using keyword_moods_returned [OF listing_rev h2 h3] h4 by simp
  have w2: "{''cool'', ''calm''} \<inter> set (extract_mood_tags rev ''Blue rain, sky, city'') \<noteq> {}"
    using keyword_moods_returned [OF listing_rev k2 k3] k4 by simp
  show ?thesis
    using listing_rev h2 h3 h4 w1 k2 k3 k4 w2 k5 by (intro conjI) simp_all
qed

lemma four_keywords_tag_set:
  "tag_set ''sunny bright dark colorful'' =
     [''bright'', ''cheerful'', ''happy'', ''vibrant'', ''moody'', ''mysterious'', ''joyful'',
      ''lively'']"
  by code_simp

text \<open>
  Against the claim C4 as it was stated: four keywords collect eight tags, and listed
  in the order of insertion the first six are returned; neither mood of the keyword
  colorful is among them.
\<close>

theorem keyword_moods_dropped_counterexample:
  "contains ''colorful'' (lower ''sunny bright dark colorful'')
   \<and> (''colorful'', [''joyful'', ''lively'', ''playful'']) \<in> set mood_mappings
   \<and> length (tag_set ''sunny bright dark colorful'') = 8
   \<and> ''joyful'' \<notin> set (extract_mood_tags insertion_order ''sunny bright dark colorful'')
   \<and> ''lively'' \<notin> set (extract_mood_tags insertion_order ''sunny bright dark colorful'')"
proof -
  have a: "contains ''colorful'' (lower ''sunny bright dark colorful'')"
    by code_simp
  have b: "(''colorful'', [''joyful'', ''lively'', ''playful'']) \<in> set mood_mappings"
    by (simp add: mood_mappings_def)
  have c: "extract_mood_tags insertion_order ''sunny bright dark colorful''
      = [''bright'', ''cheerful'', ''happy'', ''vibrant'', ''moody'', ''mysterious'']"
    by (simp add: extract_mood_tags_def insertion_order_def four_keywords_tag_set)
  show ?thesis using a b by (simp add: c four_keywords_tag_set)
qed

text \<open>
  Where seven keywords with fourteen different moods occur, six tags cannot cover all
  seven: whatever the order of the listing, some keyword of the caption has neither of
  its first two moods in the result.
\<close>

lemma seven_keywords_tag_set:
  "tag_set ''sunny bright dark colorful peaceful beautiful green'' =
     [''bright'', ''cheerful'', ''happy'', ''vibrant'', ''moody'', ''mysterious'', ''joyful'',
      ''lively'', ''calm'', ''serene'', ''elegant'', ''lovely'', ''natural'', ''fresh'']"
  by code_simp

lemma keyword_moods_dropped_any_order:
  "\<exists>(keyword, moods) \<in> set (matched_entries (lower ''sunny bright dark colorful peaceful beautiful green'')).
           set (take 2 moods) \<inter> set (extract_mood_tags enum ''sunny bright dark colorful peaceful beautiful green'') = {}"
  (is "?dropped")
proof (rule ccontr)
  let ?c = "''sunny bright dark colorful peaceful beautiful green''"
  let ?out = "extract_mood_tags enum ?c"
  assume "\<not> ?dropped"
  then have all: "\<And>keyword moods. (keyword, moods) \<in> set (matched_entries (lower ?c))
      \<Longrightarrow> set (take 2 moods) \<inter> set ?out \<noteq> {}"
    by blast
  have m: "matched_entries (lower ?c) =
      [(''sunny'', [''bright'', ''cheerful'', ''warm'']),
       (''bright'', [''happy'', ''vibrant'', ''energetic'']),
       (''dark'', [''moody'', ''mysterious'', ''dramatic'']),
       (''colorful'', [''joyful'', ''lively'', ''playful'']),
       (''peaceful'', [''calm'', ''serene'', ''tranquil'']),
       (''beautiful'', [''elegant'', ''lovely'', ''aesthetic'']),
       (''green'', [''natural'', ''fresh'', ''organic''])]"
    by code_simp
  define pair_of :: "string \<Rightarrow> nat" where
    "pair_of t =
       (if t = ''bright'' \<or> t = ''cheerful'' then 0
        else if t = ''happy'' \<or> t = ''vibrant'' then 1
        else if t = ''moody'' \<or> t = ''mysterious'' then 2
        else if t = ''joyful'' \<or> t = ''lively'' then 3
        else if t = ''calm'' \<or> t = ''serene'' then 4
        else if t = ''elegant'' \<or> t = ''lovely'' then 5
        else 6)" for t
  have p0: "0 \<in> pair_of ` set ?out"
    using all [of "''sunny''" "[''bright'', ''cheerful'', ''warm'']"]
    by (auto simp: m pair_of_def image_iff)
  have p1: "1 \<in> pair_of ` set ?out"
    using all [of "''bright''" "[''happy'', ''vibrant'', ''energetic'']"]
    by (auto simp: m pair_of_def image_iff)
  have p2: "2 \<in> pair_of ` set ?out"
    using all [of "''dark''" "[''moody'', ''mysterious'', ''dramatic'']"]
    by (auto simp: m pair_of_def image_iff)
  have p3: "3 \<in> pair_of ` set ?out"
    using all [of "''colorful''" "[''joyful'', ''lively'', ''playful'']"]
    by (auto simp: m pair_of_def image_iff)
  have p4: "4 \<in> pair_of ` set ?out"
    using all [of "''peaceful''" "[''calm'', ''serene'', ''tranquil'']"]
    by (auto simp: m pair_of_def image_iff)
  have p5: "5 \<in> pair_of ` set ?out"
    using all [of "''beautiful''" "[''elegant'', ''lovely'', ''aesthetic'']"]
    by (auto simp: m pair_of_def image_iff)
  have p6: "6 \<in> pair_of ` set ?out"
    using all [of "''green''" "[''natural'', ''fresh'', ''organic'']"]
    by (auto simp: m pair_of_def image_iff)
  have "{0, 1, 2, 3, 4, 5, 6} \<subseteq> pair_of ` set ?out"
    using p0 p1 p2 p3 p4 p5 p6 by simp
  then have "card {0, 1, 2, 3, 4, 5, 6 :: nat} \<le> card (pair_of ` set ?out)"
    by (intro card_mono) simp_all
  also have "\<dots> \<le> card (set ?out)" by (rule card_image_le) simp
  also have "\<dots> \<le> length ?out" by (rule card_length)
  also have "\<dots> \<le> 6" by (simp add: extract_mood_tags_def)
  finally show False by simp
qed


section \<open>The fallback tiers\<close>

lemma empty_caption_no_keyword: "matched_entries (lower []) = []"
  by code_simp

lemma lexicon_branch_tags:
  assumes "set_listing enum" and "matched_entries (lower caption) \<noteq> []"
  shows "set (extract_mood_tags enum caption) \<subseteq>
           (\<Union>(keyword, moods) \<in> set (matched_entries (lower caption)). set (take 2 moods))"
proof -
  have "set (tag_set caption) =
      (\<Union>(keyword, moods) \<in> set (matched_entries (lower caption)). set (take 2 moods))"
    using tag_set_lexicon [OF assms(2)] by (simp add: lexicon_tags_set)
  then show ?thesis using extract_subset [OF assms(1), of caption] by simp
qed

lemma fallback_branch_tags:
  assumes "set_listing enum" and "matched_entries (lower caption) = []"
  shows "set (extract_mood_tags enum caption) =
           (if any_word_in [''beautiful'', ''nice'', ''good'', ''lovely''] (lower caption)
              then {''pleasant'', ''positive''}
            else if any_word_in [''sitting'', ''standing'', ''lying''] (lower caption)
              then {''calm'', ''relaxed''}
            else {''neutral'', ''balanced''})"
    and "length (extract_mood_tags enum caption) = 2"
proof -
  have t: "tag_set caption =
       (if any_word_in [''beautiful'', ''nice'', ''good'', ''lovely''] (lower caption)
          then [''pleasant'', ''positive'']
        else if any_word_in [''sitting'', ''standing'', ''lying''] (lower caption)
          then [''calm'', ''relaxed'']
        else [''neutral'', ''balanced''])"
    using assms(2) by (rule tag_set_fallback)
  then have l: "length (tag_set caption) = 2" by simp
  then have "set (extract_mood_tags enum caption) = set (tag_set caption)"
    using extract_set_untruncated [OF assms(1), of caption] by simp
  then show "set (extract_mood_tags enum caption) =
           (if any_word_in [''beautiful'', ''nice'', ''good'', ''lovely''] (lower caption)
              then {''pleasant'', ''positive''}
            else if any_word_in [''sitting'', ''standing'', ''lying''] (lower caption)
              then {''calm'', ''relaxed''}
            else {''neutral'', ''balanced''})"
    using t by simp
  show "length (extract_mood_tags enum caption) = 2"
    using extract_length [OF assms(1), of caption] l by simp
qed

text \<open>
  Claim C6. For every caption that is empty or whose lower-cased form contains no
  lexicon keyword, the result is exactly one fallback pair: pleasant and positive if
  the lower-cased caption contains a positive word, else calm and relaxed if it
  contains a posture word, else neutral and balanced. The two branches never meet in
  one result: when a keyword does occur, every returned tag is one of the first two
  moods of a keyword that occurs, and no fallback pair is added. (The word calm is
  also a lexicon mood; it is a fallback tag only when no keyword occurs.)
\<close>

theorem fallback_exactly_one_pair:
  assumes "set_listing enum"
  shows "(caption = [] \<or> matched_entries (lower caption) = [] \<longrightarrow>
            matched_entries (lower caption) = []
          \<and> set (extract_mood_tags enum caption) =
              (if any_word_in [''beautiful'', ''nice'', ''good'', ''lovely''] (lower caption)
                 then {''pleasant'', ''positive''}
               else if any_word_in [''sitting'', ''standing'', ''lying''] (lower caption)
                 then {''calm'', ''relaxed''}
               else {''neutral'', ''balanced''})
          \<and> length (extract_mood_tags enum caption) = 2
          \<and> distinct (extract_mood_tags enum caption))
       \<and> (matched_entries (lower caption) \<noteq> [] \<longrightarrow>
            set (extract_mood_tags enum caption) \<subseteq>
              (\<Union>(keyword, moods) \<in> set (matched_entries (lower caption)). set (take 2 moods)))"
proof (intro conjI impI)
  assume h: "caption = [] \<or> matched_entries (lower caption) = []"
  show e: "matched_entries (lower caption) = []"
    using h empty_caption_no_keyword by auto
  show "set (extract_mood_tags enum caption) =
              (if any_word_in [''beautiful'', ''nice'', ''good'', ''lovely''] (lower caption)
                 then {''pleasant'', ''positive''}
               else if any_word_in [''sitting'', ''standing'', ''lying''] (lower caption)
                 then {''calm'', ''relaxed''}
               else {''neutral'', ''balanced''})"
    using assms e by (rule fallback_branch_tags(1))
  show "length (extract_mood_tags enum caption) = 2"
    using assms e by (rule fallback_branch_tags(2))
  show "distinct (extract_mood_tags enum caption)"
    using assms by (rule extract_distinct)
next
  assume "matched_entries (lower caption) \<noteq> []"
  with assms show "set (extract_mood_tags enum caption) \<subseteq>
      (\<Union>(keyword, moods) \<in> set (matched_entries (lower caption)). set (take 2 moods))"
    by (rule lexicon_branch_tags)
qed

theorem fallback_exactly_one_pair_witness:
  "set_listing rev
   \<and> matched_entries (lower ''A Nice Picture of a Man Standing'') = []
   \<and> set (extract_mood_tags rev ''A Nice Picture of a Man Standing'') = {''pleasant'', ''positive''}
   \<and> length (extract_mood_tags rev ''A Nice Picture of a Man Standing'') = 2
   \<and> set (extract_mood_tags rev []) = {''neutral'', ''balanced''}
   \<and> matched_entries (lower ''blue sitting'') \<noteq> []
   \<and> set (extract_mood_tags rev ''blue sitting'') \<subseteq> {''cool'', ''calm''}"
proof -
  have m1: "matched_entries (lower ''A Nice Picture of a Man Standing'') = []"
    by code_simp
  have a1: "any_word_in [''beautiful'', ''nice'', ''good'', ''lovely'']
      (lower ''A Nice Picture of a Man Standing'')"
    by code_simp
  have a2: "\<not> any_word_in [''beautiful'', ''nice'', ''good'', ''lovely''] (lower [])"
    by code_simp
  have a3: "\<not> any_word_in [''sitting'', ''standing'', ''lying''] (lower [])"
    by code_simp
  have m3: "matched_entries (lower ''blue sitting'') = [(''blue'', [''cool'', ''calm'', ''peaceful''])]"
    by code_simp
  show ?thesis
    using fallback_exactly_one_pair [OF listing_rev, of "''A Nice Picture of a Man Standing''"]
      fallback_exactly_one_pair [OF listing_rev, of "[]"]
      fallback_exactly_one_pair [OF listing_rev, of "''blue sitting''"]
      listing_rev m1 a1 a2 a3 m3
    by simp
qed

section \<open>Two captions\<close>

lemma sunny_beach_tag_set:
  "tag_set ''A sunny beach with bright colors'' =
     [''bright'', ''cheerful'', ''happy'', ''vibrant'', ''relaxing'', ''tropical'']"
  by code_simp

text \<open>
  Claim C7, as the code has it. For the caption "A sunny beach with bright colors" the
  keywords sunny, bright and beach occur, and the result is, in some order, the six
  tags bright, cheerful, happy, vibrant, relaxing, tropical: the first two moods of
  each. It is a subset of the eight tags of the claim together with bright, it has
  six elements and no tag twice.
\<close>

theorem sunny_beach_tags:
  assumes "set_listing enum"
  shows "set (extract_mood_tags enum ''A sunny beach with bright colors'')
           = {''bright'', ''cheerful'', ''happy'', ''vibrant'', ''relaxing'', ''tropical''}
       \<and> set (extract_mood_tags enum ''A sunny beach with bright colors'')
           \<subseteq> insert ''bright'' {''cheerful'', ''warm'', ''happy'', ''vibrant'', ''energetic'',
                                  ''relaxing'', ''tropical'', ''carefree''}
       \<and> length (extract_mood_tags enum ''A sunny beach with bright colors'') = 6
       \<and> distinct (extract_mood_tags enum ''A sunny beach with bright colors'')"
proof -
  let ?c = "''A sunny beach with bright colors''"
  have l: "length (tag_set ?c) \<le> 6" by (simp add: sunny_beach_tag_set)
  have s: "set (extract_mood_tags enum ?c)
      = {''bright'', ''cheerful'', ''happy'', ''vibrant'', ''relaxing'', ''tropical''}"
    using extract_set_untruncated [OF assms l] by (simp add: sunny_beach_tag_set)
  have n: "length (extract_mood_tags enum ?c) = 6"
    using extract_length [OF assms, of ?c] by (simp add: sunny_beach_tag_set)
  have d: "distinct (extract_mood_tags enum ?c)" using assms by (rule extract_distinct)
  have sub: "set (extract_mood_tags enum ?c)
      \<subseteq> insert ''bright'' {''cheerful'', ''warm'', ''happy'', ''vibrant'', ''energetic'',
                             ''relaxing'', ''tropical'', ''carefree''}"
    unfolding s by (intro subsetI; elim insertE emptyE; simp)
  show ?thesis
    by (intro conjI) (rule s, rule sub, rule n, rule d)
qed

theorem sunny_beach_tags_witness:
  "set_listing rev
   \<and> extract_mood_tags rev ''A sunny beach with bright colors''
       = [''tropical'', ''relaxing'', ''vibrant'', ''happy'', ''cheerful'', ''bright'']
   \<and> set (extract_mood_tags rev ''A sunny beach with bright colors'')
       = {''bright'', ''cheerful'', ''happy'', ''vibrant'', ''relaxing'', ''tropical''}
   \<and> length (extract_mood_tags rev ''A sunny beach with bright colors'') = 6"
proof -
  have e: "extract_mood_tags rev ''A sunny beach with bright colors''
       = [''tropical'', ''relaxing'', ''vibrant'', ''happy'', ''cheerful'', ''bright'']"
    by (simp add: extract_mood_tags_def sunny_beach_tag_set)
  have t: "set (extract_mood_tags rev ''A sunny beach with bright colors'')
       = {''bright'', ''cheerful'', ''happy'', ''vibrant'', ''relaxing'', ''tropical''}"
    using sunny_beach_tags [OF listing_rev] by (rule conjunct1)
  have n: "length (extract_mood_tags rev ''A sunny beach with bright colors'') = 6"
    using e by simp
  show ?thesis
    by (intro conjI) (rule listing_rev, rule e, rule t, rule n)
qed

text \<open>
  The tag bright, first mood of the keyword sunny, is returned and is not among the
  eight tags the claim C7 names.
\<close>

theorem sunny_beach_bright_returned:
  "\<not> set (extract_mood_tags insertion_order ''A sunny beach with bright colors'')
       \<subseteq> {''cheerful'', ''warm'', ''happy'', ''vibrant'', ''energetic'',
           ''relaxing'', ''tropical'', ''carefree''}"
  by (simp add: extract_mood_tags_def insertion_order_def sunny_beach_tag_set)

text \<open>
  Claim C8. For the caption "A person sitting quietly" no lexicon keyword occurs in
  the lower-cased caption, and the result is exactly calm and relaxed, the posture
  tier of the fallback.
\<close>

theorem person_sitting_tags:
  assumes "set_listing enum"
  shows "matched_entries (lower ''A person sitting quietly'') = []
       \<and> set (extract_mood_tags enum ''A person sitting quietly'') = {''calm'', ''relaxed''}
       \<and> length (extract_mood_tags enum ''A person sitting quietly'') = 2
       \<and> distinct (extract_mood_tags enum ''A person sitting quietly'')"
proof -
  let ?c = "''A person sitting quietly''"
  have m: "matched_entries (lower ?c) = []" by code_simp
  have a: "\<not> any_word_in [''beautiful'', ''nice'', ''good'', ''lovely''] (lower ?c)"
    by code_simp
  have b: "any_word_in [''sitting'', ''standing'', ''lying''] (lower ?c)"
    by code_simp
  have s: "set (extract_mood_tags enum ?c) = {''calm'', ''relaxed''}"
    using fallback_branch_tags(1) [OF assms m] a b by simp
  show ?thesis
    by (intro conjI)
      (rule m, rule s, rule fallback_branch_tags(2) [OF assms m], rule extract_distinct [OF assms])
qed

theorem person_sitting_tags_witness:
  "set_listing insertion_order
   \<and> extract_mood_tags insertion_order ''A person sitting quietly'' = [''calm'', ''relaxed'']
   \<and> set (extract_mood_tags insertion_order ''A person sitting quietly'') = {''calm'', ''relaxed''}"
proof -
  have e: "extract_mood_tags insertion_order ''A person sitting quietly'' = [''calm'', ''relaxed'']"
    by code_simp
  have t: "set (extract_mood_tags insertion_order ''A person sitting quietly'') = {''calm'', ''relaxed''}"
    using person_sitting_tags [OF listing_insertion_order] by (elim conjE)
  show ?thesis
    by (intro conjI) (rule listing_insertion_order, rule e, rule t)
qed


section \<open>The word beautiful\<close>

lemma no_entry_gives_pleasant:
  "list_all (\<lambda>(keyword, moods). ''pleasant'' \<notin> set (take 2 moods)) mood_mappings"
  by (simp add: mood_mappings_def)

lemma lexicon_branch_not_pleasant:
  assumes "set_listing enum" and "matched_entries (lower caption) \<noteq> []"
  shows "''pleasant'' \<notin> set (extract_mood_tags enum caption)"
proof
  assume "''pleasant'' \<in> set (extract_mood_tags enum caption)"
  then have "''pleasant'' \<in>
      (\<Union>(keyword, moods) \<in> set (matched_entries (lower caption)). set (take 2 moods))"
    using lexicon_branch_tags [OF assms] by blast
  then obtain keyword moods where km: "(keyword, moods) \<in> set (matched_entries (lower caption))"
    and p: "''pleasant'' \<in> set (take 2 moods)"
    by blast
  from km have "(keyword, moods) \<in> set mood_mappings" by (simp add: matched_entries_set)
  then have "''pleasant'' \<notin> set (take 2 moods)"
    using no_entry_gives_pleasant by (auto simp: list_all_iff)
  with p show False by simp
qed

lemma beautiful_entry: "(''beautiful'', [''elegant'', ''lovely'', ''aesthetic'']) \<in> set mood_mappings"
  by (simp add: mood_mappings_def)

lemma beautiful_matched:
  assumes "contains ''beautiful'' caption_lower"
  shows "matched_entries caption_lower \<noteq> []"
proof -
  have "(''beautiful'', [''elegant'', ''lovely'', ''aesthetic'']) \<in> set (matched_entries caption_lower)"
    using assms beautiful_entry by (simp add: matched_entries_set)
  then show ?thesis by auto
qed

lemma positive_words_without_beautiful:
  assumes "matched_entries caption_lower = []"
  shows "any_word_in [''beautiful'', ''nice'', ''good'', ''lovely''] caption_lower
       = any_word_in [''nice'', ''good'', ''lovely''] caption_lower"
proof -
  have "\<not> contains ''beautiful'' caption_lower"
    using assms beautiful_matched by blast
  then show ?thesis by (simp add: any_word_in_def)
qed

lemma pleasant_pair_iff:
  assumes "set_listing enum"
  shows "set (extract_mood_tags enum caption) = {''pleasant'', ''positive''} \<longleftrightarrow>
           matched_entries (lower caption) = []
         \<and> any_word_in [''nice'', ''good'', ''lovely''] (lower caption)"
proof (cases "matched_entries (lower caption) = []")
  case True
  have ne1: "{''calm'', ''relaxed''} \<noteq> {''pleasant'', ''positive''}"
    by (simp add: doubleton_eq_iff)
  have ne2: "{''neutral'', ''balanced''} \<noteq> {''pleasant'', ''positive''}"
    by (simp add: doubleton_eq_iff)
  show ?thesis
    using fallback_branch_tags(1) [OF assms True] positive_words_without_beautiful [OF True]
      True ne1 ne2
    by (simp split: if_splits)
next
  case False
  have "''pleasant'' \<notin> set (extract_mood_tags enum caption)"
    using assms False by (rule lexicon_branch_not_pleasant)
  then have "set (extract_mood_tags enum caption) \<noteq> {''pleasant'', ''positive''}"
    by auto
  with False show ?thesis by simp
qed

text \<open>
  Claim C10. For every caption whose lower-cased form contains beautiful, the lexicon
  branch is taken: a keyword occurs, the set is the one collected from the lexicon and
  holds elegant and lovely, and the result is not the pair pleasant, positive. The
  result is that pair exactly when no lexicon keyword occurs in the lower-cased caption
  and one of nice, good, lovely does; beautiful is then not in the caption.
\<close>

theorem beautiful_takes_lexicon_branch:
  assumes "set_listing enum"
  shows "(contains ''beautiful'' (lower caption) \<longrightarrow>
            matched_entries (lower caption) \<noteq> []
          \<and> tag_set caption = collect_moods mood_mappings (lower caption) []
          \<and> {''elegant'', ''lovely''} \<subseteq> set (tag_set caption)
          \<and> set (extract_mood_tags enum caption) \<noteq> {''pleasant'', ''positive''})
       \<and> (set (extract_mood_tags enum caption) = {''pleasant'', ''positive''} \<longleftrightarrow>
            matched_entries (lower caption) = []
          \<and> any_word_in [''nice'', ''good'', ''lovely''] (lower caption))
       \<and> (set (extract_mood_tags enum caption) = {''pleasant'', ''positive''} \<longrightarrow>
            \<not> contains ''beautiful'' (lower caption))"
proof (intro conjI impI)
  assume b: "contains ''beautiful'' (lower caption)"
  show m: "matched_entries (lower caption) \<noteq> []"
    using b by (rule beautiful_matched)
  show "tag_set caption = collect_moods mood_mappings (lower caption) []"
    using m by (rule tag_set_lexicon)
  show "{''elegant'', ''lovely''} \<subseteq> set (tag_set caption)"
    using matched_entry_moods_in_tag_set [OF beautiful_entry b] by simp
  show "set (extract_mood_tags enum caption) \<noteq> {''pleasant'', ''positive''}"
    using pleasant_pair_iff [OF assms, of caption] m by simp
next
  show "set (extract_mood_tags enum caption) = {''pleasant'', ''positive''} \<longleftrightarrow>
            matched_entries (lower caption) = []
          \<and> any_word_in [''nice'', ''good'', ''lovely''] (lower caption)"
    using assms by (rule pleasant_pair_iff)
next
  assume "set (extract_mood_tags enum caption) = {''pleasant'', ''positive''}"
  then have "matched_entries (lower caption) = []"
    using pleasant_pair_iff [OF assms, of caption] by simp
  then show "\<not> contains ''beautiful'' (lower caption)"
    using beautiful_matched by blast
qed

theorem beautiful_takes_lexicon_branch_witness:
  "set_listing rev
   \<and> contains ''beautiful'' (lower ''A Beautiful, lovely garden'')
   \<and> matched_entries (lower ''A Beautiful, lovely garden'') \<noteq> []
   \<and> {''elegant'', ''lovely''} \<subseteq> set (tag_set ''A Beautiful, lovely garden'')
   \<and> set (extract_mood_tags rev ''A Beautiful, lovely garden'') \<noteq> {''pleasant'', ''positive''}
   \<and> matched_entries (lower ''A lovely garden'') = []
   \<and> any_word_in [''nice'', ''good'', ''lovely''] (lower ''A lovely garden'')
   \<and> set (extract_mood_tags rev ''A lovely garden'') = {''pleasant'', ''positive''}
   \<and> \<not> contains ''beautiful'' (lower ''A lovely garden'')"
proof -
  have b: "contains ''beautiful'' (lower ''A Beautiful, lovely garden'')"
    by code_simp
  have m: "matched_entries (lower ''A lovely garden'') = []"
    by code_simp
  have a: "any_word_in [''nice'', ''good'', ''lovely''] (lower ''A lovely garden'')"
    by code_simp
  note w1 = beautiful_takes_lexicon_branch [OF listing_rev, of "''A Beautiful, lovely garden''"]
  note w2 = beautiful_takes_lexicon_branch [OF listing_rev, of "''A lovely garden''"]
  from w1 b have b1: "matched_entries (lower ''A Beautiful, lovely garden'') \<noteq> []"
    and b2: "{''elegant'', ''lovely''} \<subseteq> set (tag_set ''A Beautiful, lovely garden'')"
    and b3: "set (extract_mood_tags rev ''A Beautiful, lovely garden'') \<noteq> {''pleasant'', ''positive''}"
    by blast+
  from w2 m a have c1: "set (extract_mood_tags rev ''A lovely garden'') = {''pleasant'', ''positive''}"
    by blast
  with w2 have c2: "\<not> contains ''beautiful'' (lower ''A lovely garden'')"
    by blast
  show ?thesis
    by (intro conjI) (rule listing_rev, rule b, rule b1, rule b2, rule b3, rule m, rule a, rule c1, rule c2)
qed


section \<open>The job processor never raises on a dict\<close>

lemma and_then_Inl: "and_then r f = Inl e \<longleftrightarrow> r = Inl e \<or> (\<exists>v. r = Inr v \<and> f v = Inl e)"
  by (cases r) (auto simp: and_then_def)

lemma raising_Inl: "raising r = Inl e \<longleftrightarrow> (\<exists>m. r = Inl m \<and> e = Error m)"
  by (cases r) (auto simp: raising_def)

text \<open>What the \<open>try\<close> block can raise on a dict: a missing key, or a collaborator's failure.\<close>

lemma process_image_try_raises:
  assumes "process_image_try env now (JObj kvs) = Inl e"
  shows "(\<exists>key. e = KeyError key \<and> map_of kvs key = None)
       \<or> (\<exists>m. e = Error m \<and>
             ((\<exists>v. b64decode env v = Inl m) \<or> (\<exists>b. image_open env b = Inl m)
              \<or> (\<exists>i md. convert env i md = Inl m) \<or> (\<exists>i. generate_caption env i = Inl m)))"
  using assms unfolding process_image_try_def
  by (auto simp: and_then_Inl raising_Inl split: if_splits option.splits)

lemma process_image_try_raises_Exception:
  assumes "process_image_try env now job_data = Inl e"
  shows "is_Exception e"
proof -
  have s: "is_Exception e'" if "subscript job_data key = Inl e'" for key e'
    using that by (cases job_data) (auto split: option.splits)
  show ?thesis
    using assms s unfolding process_image_try_def
    by (auto simp: and_then_Inl raising_Inl split: if_splits)
qed

lemma str_exn_nonempty:
  assumes "process_image_try env now (JObj kvs) = Inl e" and "nonempty_messages env"
  shows "str_exn e \<noteq> []"
proof -
  from process_image_try_raises [OF assms(1)]
  consider key where "e = KeyError key"
    | m where "e = Error m" and "(\<exists>v. b64decode env v = Inl m) \<or> (\<exists>b. image_open env b = Inl m)
              \<or> (\<exists>i md. convert env i md = Inl m) \<or> (\<exists>i. generate_caption env i = Inl m)"
    by blast
  then show ?thesis
  proof cases
    case 1
    then show ?thesis by simp
  next
    case 2
    then have "m \<noteq> []" using assms(2) by (auto simp: nonempty_messages_def)
    with 2 show ?thesis by simp
  qed
qed

lemma process_image_try_success:
  assumes "process_image_try env now job_data = Inr r"
  shows "success r \<and> error r = None \<and> processedAt r = now \<and> worker r = WORKER_ID env
       \<and> subscript job_data ''requestId'' = Inr (requestId r)
       \<and> (\<exists>caption. data r =
             Some (tags_or_default (extract_mood_tags (set_order env) caption), caption))"
  using assms unfolding process_image_try_def and_then_def
  by (auto split: sum.splits)

text \<open>
  Claim C1, as the code has it. For every job that is a dict, whatever its fields and
  whatever the collaborators do, \<open>process_image\<close> returns a result and raises nothing.
  If the \<open>try\<close> block raised \<open>e\<close>, the result has \<open>success\<close> false, no \<open>data\<close>, the
  \<open>str\<close> of \<open>e\<close> as \<open>error\<close>, and as \<open>requestId\<close> the job's \<open>requestId\<close> when it has
  one, else the string unknown; \<open>error\<close> is not empty when no collaborator raises with
  an empty message (the \<open>KeyError\<close> of a missing field never has one). Otherwise the
  result is the success the \<open>try\<close> block built.
\<close>

theorem process_image_dict_returns:
  "\<exists>r. process_image env now (JObj kvs) = Inr r
      \<and> (case process_image_try env now (JObj kvs) of
            Inr built \<Rightarrow> r = built \<and> success r
          | Inl e \<Rightarrow>
              \<not> success r \<and> data r = None \<and> error r = Some (str_exn e)
              \<and> requestId r = (case map_of kvs ''requestId'' of
                                 None \<Rightarrow> JStr ''unknown'' | Some v \<Rightarrow> v)
              \<and> worker r = WORKER_ID env \<and> processedAt r = now
              \<and> (nonempty_messages env \<longrightarrow> error r \<noteq> Some []))"
proof (cases "process_image_try env now (JObj kvs)")
  case (Inl e)
  have ex: "is_Exception e" using Inl by (rule process_image_try_raises_Exception)
  have ne: "nonempty_messages env \<longrightarrow> str_exn e \<noteq> []"
    using str_exn_nonempty [OF Inl] by blast
  show ?thesis
    using Inl ex ne by (simp add: process_image_def)
next
  case (Inr built)
  then have "success built" using process_image_try_success by blast
  with Inr show ?thesis by (simp add: process_image_def)
qed

lemma example_messages: "nonempty_messages example_collaborators"
  by (simp add: nonempty_messages_def example_collaborators_def)

theorem process_image_dict_returns_witness:
  "nonempty_messages example_collaborators
   \<and> process_image example_collaborators ''2026-11-04T10:00:00'' job_r1
       = Inr \<lparr>requestId = JStr ''r1'', success = False, data = None,
              error = Some ''Incorrect padding'', worker = ''mood-worker-4242'',
              processedAt = ''2026-11-04T10:00:00''\<rparr>
   \<and> process_image_try example_collaborators ''2026-11-04T10:00:00'' job_r1
       = Inl (Error ''Incorrect padding'')"
proof -
  have t: "process_image_try example_collaborators ''2026-11-04T10:00:00'' job_r1
       = Inl (Error ''Incorrect padding'')"
    by (simp add: process_image_try_def and_then_def raising_def job_r1_def
        example_collaborators_def)
  obtain r where r: "process_image example_collaborators ''2026-11-04T10:00:00'' job_r1 = Inr r"
    and f: "\<not> success r" "data r = None" "error r = Some ''Incorrect padding''"
      "requestId r = JStr ''r1''" "worker r = ''mood-worker-4242''"
      "processedAt r = ''2026-11-04T10:00:00''"
    using process_image_dict_returns [of example_collaborators "''2026-11-04T10:00:00''"
        "[(''requestId'', JStr ''r1''), (''fileName'', JStr ''beach.png''),
          (''imageData'', JStr ''not-valid-base64!'')]"]
    unfolding job_r1_def [symmetric] t
    by (auto simp: example_collaborators_def)
  have "r = \<lparr>requestId = JStr ''r1'', success = False, data = None,
              error = Some ''Incorrect padding'', worker = ''mood-worker-4242'',
              processedAt = ''2026-11-04T10:00:00''\<rparr>"
    using f by simp
  with r t example_messages show ?thesis by simp
qed

text \<open>On a job that is not a dict the handler itself raises: such a value has no \<open>get\<close>.\<close>

lemma process_image_not_dict:
  assumes "\<And>kvs. job_data \<noteq> JObj kvs"
  shows "\<exists>m. process_image env now job_data = Inl (AttributeError m)"
proof (cases job_data)
  case (JObj kvs)
  with assms show ?thesis by blast
qed (simp_all add: process_image_def process_image_try_def and_then_def)

text \<open>
  Against the claim C1 as it was stated, which includes values that are not dicts: on the
  string job the \<open>try\<close> block raises \<open>TypeError\<close>, the handler raises
  \<open>AttributeError\<close>, and that leaves \<open>process_image\<close>.
\<close>

theorem process_image_raises_counterexample:
  "process_image example_collaborators ''2026-11-04T10:00:00'' (JStr ''job'')
     = Inl (AttributeError ([CHR 0x27] @ ''str'' @ [CHR 0x27] @ '' object has no attribute ''
                              @ [CHR 0x27] @ ''get'' @ [CHR 0x27]))"
  by (simp add: process_image_def process_image_try_def and_then_def)


section \<open>One iteration of the worker loop\<close>

lemma dict_job_processed: "\<exists>r. process_image env now (JObj kvs) = Inr r"
proof (cases "process_image_try env now (JObj kvs)")
  case (Inl e)
  then have "is_Exception e" by (rule process_image_try_raises_Exception)
  with Inl show ?thesis by (simp add: process_image_def)
next
  case (Inr built)
  then show ?thesis by (simp add: process_image_def)
qed

lemma publish_calls_Nil: "publish_calls [] = 0"
  by (simp add: publish_calls_def)

lemma publish_calls_append: "publish_calls (xs @ ys) = publish_calls xs + publish_calls ys"
  by (simp add: publish_calls_def)

lemma publish_calls_single: "publish_calls [PublishCall ch r] = 1"
  by (simp add: publish_calls_def)

lemma publish_calls_sleep: "publish_calls [SleepCall n] = 0"
  by (simp add: publish_calls_def)

lemma inner_try_events: "fst (inner_try env loads it job_data) = fst (dispatch_job env loads it job_data)"
  unfolding inner_try_def
  by (cases "dispatch_job env loads it job_data")
     (auto split: option.splits exn.splits)

lemma inner_try_raises:
  "snd (inner_try env loads it job_data) = Some e \<longleftrightarrow>
     e = CancelledError \<and> snd (dispatch_job env loads it job_data) = Some CancelledError"
  unfolding inner_try_def
  by (cases "dispatch_job env loads it job_data")
     (auto split: option.splits exn.splits)

lemma iteration_publish_calls:
  "publish_calls (fst (iteration env loads it)) = publish_calls (fst (outer_try env loads it))"
  unfolding iteration_def
  by (cases "outer_try env loads it")
     (auto simp: publish_calls_append publish_calls_sleep split: option.splits)

text \<open>A payload that \<open>json.loads\<close> rejects: nothing is published and the loop goes on.\<close>

lemma unparseable_payload_dropped:
  assumes "brpop it = Inr (Some (queue_name, job_data))"
    and "loads job_data = Inl (JSONDecodeError m)"
  shows "iteration env loads it = ([], Continue)"
  using assms
  by (simp add: iteration_def outer_try_def inner_try_def dispatch_job_def and_then_def)

text \<open>
  A payload that parses to a dict with a \<open>requestId\<close>: \<open>publish\<close> is called once, with
  the result of \<open>process_image\<close>, whether that result is a success or a failure.
\<close>

lemma job_with_request_id_published:
  assumes "brpop it = Inr (Some (queue_name, job_data))"
    and "loads job_data = Inr (JObj kvs)"
    and "map_of kvs ''requestId'' = Some v"
  shows "\<exists>r. process_image env (clock it) (JObj kvs) = Inr r
           \<and> fst (outer_try env loads it) = [PublishCall RESULT_CHANNEL r]
           \<and> publish_calls (fst (iteration env loads it)) = 1"
proof -
  obtain r where r: "process_image env (clock it) (JObj kvs) = Inr r"
    using dict_job_processed by blast
  have d: "fst (dispatch_job env loads it job_data) = [PublishCall RESULT_CHANNEL r]"
    using assms r by (simp add: dispatch_job_def and_then_def)
  then have o: "fst (outer_try env loads it) = [PublishCall RESULT_CHANNEL r]"
    using assms(1) by (simp add: outer_try_def inner_try_events)
  then have "publish_calls (fst (iteration env loads it)) = 1"
    by (simp add: iteration_publish_calls publish_calls_single)
  with r o show ?thesis by blast
qed

text \<open>
  A payload that parses to anything else (a dict without \<open>requestId\<close>, a list, a
  string, a number, \<open>null\<close>): the line that logs \<open>job['requestId']\<close> raises before
  \<open>process_image\<close> is called, \<open>except Exception\<close> logs it, and nothing is published.
\<close>

lemma job_without_request_id_dropped:
  assumes "brpop it = Inr (Some (queue_name, job_data))"
    and "loads job_data = Inr job"
    and "\<And>kvs v. job = JObj kvs \<Longrightarrow> map_of kvs ''requestId'' = None"
  shows "iteration env loads it = ([], Continue)"
proof -
  obtain e where e: "subscript job ''requestId'' = Inl e" and ex: "is_Exception e"
    using assms(3) by (cases job) auto
  have "dispatch_job env loads it job_data = ([], Some e)"
    using assms(2) e by (simp add: dispatch_job_def and_then_def)
  then have "inner_try env loads it job_data = ([], None)"
    using ex by (cases e) (simp_all add: inner_try_def)
  then show ?thesis
    using assms(1) by (simp add: iteration_def outer_try_def)
qed

text \<open>
  Claim C2, at the input where the code departs from it. The payload \<open>{}\<close> parses as
  JSON, to the empty dict. The iteration publishes nothing and goes on, although
  \<open>process_image\<close>, had it been called, would have returned a failure with the
  \<open>requestId\<close> unknown for this job.
\<close>

theorem parsed_job_not_published:
  "example_loads ''{}'' = Inr (JObj [])
   \<and> iteration example_collaborators example_loads
        \<lparr>brpop = Inr (Some (''mood-analysis-queue'', ''{}'')), publish = Inr (),
         sleep_cancelled = False, clock = ''2026-11-04T10:00:00''\<rparr> = ([], Continue)
   \<and> publish_calls (fst (iteration example_collaborators example_loads
        \<lparr>brpop = Inr (Some (''mood-analysis-queue'', ''{}'')), publish = Inr (),
         sleep_cancelled = False, clock = ''2026-11-04T10:00:00''\<rparr>)) = 0
   \<and> process_image example_collaborators ''2026-11-04T10:00:00'' (JObj [])
       = Inr \<lparr>requestId = JStr ''unknown'', success = False, data = None,
              error = Some ([CHR 0x27] @ ''requestId'' @ [CHR 0x27]),
              worker = ''mood-worker-4242'', processedAt = ''2026-11-04T10:00:00''\<rparr>"
proof -
  have l: "example_loads ''{}'' = Inr (JObj [])"
    by (simp add: example_loads_def payload_r1_def payload_r2_def quoted_def)
  have i: "iteration example_collaborators example_loads
        \<lparr>brpop = Inr (Some (''mood-analysis-queue'', ''{}'')), publish = Inr (),
         sleep_cancelled = False, clock = ''2026-11-04T10:00:00''\<rparr> = ([], Continue)"
    by (rule job_without_request_id_dropped
          [where job = "JObj []" and queue_name = "''mood-analysis-queue''" and job_data = "''{}''"])
       (simp, rule l, simp)
  have p: "process_image example_collaborators ''2026-11-04T10:00:00'' (JObj [])
       = Inr \<lparr>requestId = JStr ''unknown'', success = False, data = None,
              error = Some ([CHR 0x27] @ ''requestId'' @ [CHR 0x27]),
              worker = ''mood-worker-4242'', processedAt = ''2026-11-04T10:00:00''\<rparr>"
    by (simp add: process_image_def process_image_try_def and_then_def example_collaborators_def)
  show ?thesis
    using l i p by (simp add: publish_calls_Nil)
qed


section \<open>The worker loop as a whole\<close>

lemma is_Exception_iff: "is_Exception e \<longleftrightarrow> e \<noteq> CancelledError"
  by (cases e) simp_all

lemma iteration_no_raise:
  assumes "snd (outer_try env loads it) = None"
  shows "iteration env loads it = (fst (outer_try env loads it), Continue)"
  using assms unfolding iteration_def by (cases "outer_try env loads it") simp

lemma iteration_cancelled:
  assumes "snd (outer_try env loads it) = Some CancelledError"
  shows "iteration env loads it = (fst (outer_try env loads it), Break)"
  using assms unfolding iteration_def by (cases "outer_try env loads it") simp

lemma iteration_error:
  assumes "snd (outer_try env loads it) = Some e" and "e \<noteq> CancelledError"
  shows "iteration env loads it =
           (fst (outer_try env loads it) @ [SleepCall 5],
            if sleep_cancelled it then Propagate CancelledError else Continue)"
  using assms unfolding iteration_def
  by (cases "outer_try env loads it") (simp add: is_Exception_iff)

lemma iteration_continues_iff:
  "snd (iteration env loads it) = Continue \<longleftrightarrow> \<not> cancellation_seen env loads it"
proof (cases "snd (outer_try env loads it)")
  case None
  then show ?thesis
    by (simp add: iteration_no_raise cancellation_seen_def)
next
  case (Some e)
  show ?thesis
  proof (cases "e = CancelledError")
    case True
    with Some show ?thesis
      by (simp add: iteration_cancelled cancellation_seen_def)
  next
    case False
    with Some show ?thesis
      by (simp add: iteration_error [OF Some False] cancellation_seen_def)
  qed
qed

lemma iteration_exit:
  assumes "cancellation_seen env loads it"
  shows "snd (iteration env loads it) =
           (if snd (outer_try env loads it) = Some CancelledError then Break
            else Propagate CancelledError)"
proof (cases "snd (outer_try env loads it)")
  case None
  with assms show ?thesis by (simp add: cancellation_seen_def)
next
  case (Some e)
  show ?thesis
  proof (cases "e = CancelledError")
    case True
    with Some show ?thesis by (simp add: iteration_cancelled)
  next
    case False
    with Some assms have "sleep_cancelled it" by (simp add: cancellation_seen_def)
    with Some False show ?thesis by (simp add: iteration_error [OF Some False])
  qed
qed

lemma queue_worker_status:
  "snd (queue_worker env loads its) =
     (case dropWhile (\<lambda>it. \<not> cancellation_seen env loads it) its of
        [] \<Rightarrow> Running
      | it # rest \<Rightarrow>
          if snd (outer_try env loads it) = Some CancelledError then Stopped
          else Raised CancelledError)"
proof (induction its)
  case Nil
  then show ?case by simp
next
  case (Cons it its)
  show ?case
  proof (cases "cancellation_seen env loads it")
    case True
    then have "snd (iteration env loads it) =
           (if snd (outer_try env loads it) = Some CancelledError then Break
            else Propagate CancelledError)"
      by (rule iteration_exit)
    with True show ?thesis
      by (cases "iteration env loads it") (auto split: if_splits)
  next
    case False
    then have "snd (iteration env loads it) = Continue"
      by (simp add: iteration_continues_iff)
    with False Cons.IH show ?thesis
      by (cases "iteration env loads it"; cases "queue_worker env loads its") auto
  qed
qed

lemma queue_worker_keeps_running:
  assumes "\<forall>it \<in> set its. \<not> cancellation_seen env loads it"
  shows "snd (queue_worker env loads its) = Running"
proof -
  have d: "dropWhile (\<lambda>it. \<not> cancellation_seen env loads it) its = []"
    using assms by simp
  show ?thesis unfolding queue_worker_status d by simp
qed

lemma queue_worker_exit_needs_cancellation:
  assumes "snd (queue_worker env loads its) \<noteq> Running"
  shows "\<exists>it \<in> set its. cancellation_seen env loads it"
  using assms queue_worker_keeps_running by blast

text \<open>
  What the loop does with errors and with cancellation. An exception other than
  cancellation that leaves the outer \<open>try\<close> is followed by \<open>asyncio.sleep(5)\<close> and,
  unless the task is cancelled during that sleep, by the next iteration. The loop goes
  through every iteration in which no cancellation is seen, so no error ends it, and
  it ends at the first iteration in which one is seen: through \<open>break\<close> when
  \<open>CancelledError\<close> is raised inside the \<open>try\<close>, with \<open>CancelledError\<close> leaving the
  coroutine when the cancellation comes during the sleep of the handler.
\<close>

lemma loop_status:
  "(\<forall>e. snd (outer_try env loads it) = Some e \<and> e \<noteq> CancelledError \<longrightarrow>
        iteration env loads it =
          (fst (outer_try env loads it) @ [SleepCall 5],
           if sleep_cancelled it then Propagate CancelledError else Continue))
   \<and> ((\<forall>i \<in> set its. \<not> cancellation_seen env loads i) \<longrightarrow>
        snd (queue_worker env loads its) = Running)
   \<and> snd (queue_worker env loads its) =
       (case dropWhile (\<lambda>i. \<not> cancellation_seen env loads i) its of
          [] \<Rightarrow> Running
        | i # rest \<Rightarrow>
            if snd (outer_try env loads i) = Some CancelledError then Stopped
            else Raised CancelledError)"
proof (intro conjI allI impI)
  fix e
  assume "snd (outer_try env loads it) = Some e \<and> e \<noteq> CancelledError"
  then show "iteration env loads it =
          (fst (outer_try env loads it) @ [SleepCall 5],
           if sleep_cancelled it then Propagate CancelledError else Continue)"
    using iteration_error by blast
next
  assume "\<forall>i \<in> set its. \<not> cancellation_seen env loads i"
  then show "snd (queue_worker env loads its) = Running"
    by (rule queue_worker_keeps_running)
next
  show "snd (queue_worker env loads its) =
       (case dropWhile (\<lambda>i. \<not> cancellation_seen env loads i) its of
          [] \<Rightarrow> Running
        | i # rest \<Rightarrow>
            if snd (outer_try env loads i) = Some CancelledError then Stopped
            else Raised CancelledError)"
    by (rule queue_worker_status)
qed


lemma pop_fails_outer: "outer_try env loads pop_fails = ([], Some (Error ''Connection refused''))"
  by (simp add: outer_try_def pop_fails_def)

lemma pop_times_out_outer: "outer_try env loads pop_times_out = ([], None)"
  by (simp add: outer_try_def pop_times_out_def)

lemma pop_cancelled_outer: "outer_try env loads pop_cancelled = ([], Some CancelledError)"
  by (simp add: outer_try_def pop_cancelled_def)

lemma pop_fails_sleep_cancelled_outer:
  "outer_try env loads pop_fails_sleep_cancelled = ([], Some (Error ''Connection refused''))"
  by (simp add: outer_try_def pop_fails_sleep_cancelled_def)

lemma example_cancellations:
  "\<not> cancellation_seen env loads pop_fails"
  "\<not> cancellation_seen env loads pop_times_out"
  "cancellation_seen env loads pop_cancelled"
  "cancellation_seen env loads pop_fails_sleep_cancelled"
  by (simp_all add: cancellation_seen_def pop_fails_outer pop_times_out_outer pop_cancelled_outer
      pop_fails_sleep_cancelled_outer)
     (simp_all add: pop_fails_def pop_fails_sleep_cancelled_def)

lemma loop_status_examples:
  "snd (outer_try example_collaborators example_loads pop_fails) = Some (Error ''Connection refused'')
   \<and> Error ''Connection refused'' \<noteq> CancelledError
   \<and> iteration example_collaborators example_loads pop_fails = ([SleepCall 5], Continue)
   \<and> \<not> cancellation_seen example_collaborators example_loads pop_fails
   \<and> \<not> cancellation_seen example_collaborators example_loads pop_times_out
   \<and> snd (queue_worker example_collaborators example_loads
             [pop_fails, pop_times_out, pop_fails]) = Running
   \<and> snd (queue_worker example_collaborators example_loads
             [pop_fails, pop_times_out, pop_cancelled, pop_fails]) = Stopped
   \<and> snd (queue_worker example_collaborators example_loads
             [pop_times_out, pop_fails_sleep_cancelled, pop_fails]) = Raised CancelledError"
proof -
  note w1 = loop_status
    [of example_collaborators example_loads pop_fails "[pop_fails, pop_times_out, pop_fails]"]
  note w2 = loop_status
    [of example_collaborators example_loads pop_fails
       "[pop_fails, pop_times_out, pop_cancelled, pop_fails]"]
  note w3 = loop_status
    [of example_collaborators example_loads pop_fails
       "[pop_times_out, pop_fails_sleep_cancelled, pop_fails]"]
  have a: "iteration example_collaborators example_loads pop_fails = ([SleepCall 5], Continue)"
    using w1 by (simp add: pop_fails_outer) (simp add: pop_fails_def)
  have n: "\<forall>i \<in> set [pop_fails, pop_times_out, pop_fails].
         \<not> cancellation_seen example_collaborators example_loads i"
    by (simp add: example_cancellations)
  have b: "snd (queue_worker example_collaborators example_loads
             [pop_fails, pop_times_out, pop_fails]) = Running"
    using w1 n by blast
  have c: "snd (queue_worker example_collaborators example_loads
             [pop_fails, pop_times_out, pop_cancelled, pop_fails]) = Stopped"
    using w2 by (simp add: example_cancellations pop_cancelled_outer)
  have d: "snd (queue_worker example_collaborators example_loads
             [pop_times_out, pop_fails_sleep_cancelled, pop_fails]) = Raised CancelledError"
    using w3 by (simp add: example_cancellations pop_fails_sleep_cancelled_outer)
  show ?thesis
    using a b c d by (simp add: pop_fails_outer example_cancellations)
qed

lemma pop_cancelled_stops:
  "queue_worker env loads [pop_cancelled] = ([], Stopped)"
  by (simp add: iteration_def pop_cancelled_outer)

text \<open>
  Claim C5, at the input where the code departs from it. \<open>brpop\<close> fails with a
  connection error, the handler sleeps, and the task is cancelled during the sleep:
  the coroutine ends with \<open>CancelledError\<close>, not through \<open>break\<close>. The same
  cancellation arriving while the loop waits in \<open>brpop\<close> ends it through \<open>break\<close>,
  without an exception.
\<close>

theorem cancelled_during_backoff_raises:
  "queue_worker example_collaborators example_loads [pop_fails_sleep_cancelled]
     = ([SleepCall 5], Raised CancelledError)
   \<and> queue_worker example_collaborators example_loads [pop_cancelled] = ([], Stopped)"
proof -
  have a: "queue_worker example_collaborators example_loads [pop_fails_sleep_cancelled]
     = ([SleepCall 5], Raised CancelledError)"
    by (simp add: iteration_def pop_fails_sleep_cancelled_outer)
       (simp add: pop_fails_sleep_cancelled_def)
  show ?thesis using a pop_cancelled_stops by simp
qed

section \<open>Startup\<close>

lemma load_model_success: "fst (load_model senv g) = model_loads senv"
  by (simp add: load_model_def model_loads_def split: sum.splits)

lemma load_model_worker_task: "worker_task_set (snd (load_model senv g)) = worker_task_set g"
  by (simp add: load_model_def split: sum.splits)

text \<open>
  Claim C9. \<open>startup_event\<close> creates the worker task exactly when the model loads and
  the queue answers the ping. If the model fails to load, or connecting or the ping
  fails with an error, it returns, raising nothing, and the worker task is as it was:
  never created.
\<close>

theorem worker_started_iff_startup_succeeds:
  "worker_task_set (fst (startup_event senv g))
     = (worker_task_set g \<or> (model_loads senv \<and> queue_answers senv))
   \<and> worker_task_set (fst (startup_event senv initial_globals))
     = (model_loads senv \<and> queue_answers senv)
   \<and> (\<not> model_loads senv \<or> isl (redis_from_url senv)
        \<or> (\<exists>e. ping senv = Inl e \<and> is_Exception e) \<longrightarrow>
        snd (startup_event senv g) = None
        \<and> worker_task_set (fst (startup_event senv g)) = worker_task_set g)"
proof -
  have a: "worker_task_set (fst (startup_event senv g'))
     = (worker_task_set g' \<or> (model_loads senv \<and> queue_answers senv))" for g'
  proof (cases "load_model senv g'")
    case (Pair ok g1)
    then have ok: "ok = model_loads senv" and g1: "worker_task_set g1 = worker_task_set g'"
      using load_model_success [of senv g'] load_model_worker_task [of senv g'] by simp_all
    show ?thesis
      using Pair ok g1
      by (auto simp: startup_event_def queue_answers_def split: sum.splits bool.splits)
  qed
  have b: "snd (startup_event senv g) = None
        \<and> worker_task_set (fst (startup_event senv g)) = worker_task_set g"
    if "\<not> model_loads senv \<or> isl (redis_from_url senv)
        \<or> (\<exists>e. ping senv = Inl e \<and> is_Exception e)"
  proof (cases "load_model senv g")
    case (Pair ok g1)
    then have ok: "ok = model_loads senv" and g1: "worker_task_set g1 = worker_task_set g"
      using load_model_success [of senv g] load_model_worker_task [of senv g] by simp_all
    show ?thesis
      using that Pair ok g1
      by (auto simp: startup_event_def split: sum.splits bool.splits)
  qed
  show ?thesis
    using a [of g] a [of initial_globals] b by (simp add: initial_globals_def)
qed

theorem worker_started_iff_startup_succeeds_witness:
  "\<not> queue_answers queue_unreachable
   \<and> startup_event queue_unreachable initial_globals
       = (\<lparr>processor_set = True, model_set = True, redis_client_set = True,
           worker_task_set = False\<rparr>, None)
   \<and> model_loads all_reachable \<and> queue_answers all_reachable
   \<and> worker_task_set (fst (startup_event all_reachable initial_globals))"
proof -
  have q: "\<not> queue_answers queue_unreachable"
    by (simp add: queue_answers_def queue_unreachable_def)
  have m: "model_loads all_reachable" "queue_answers all_reachable"
    by (simp_all add: model_loads_def queue_answers_def all_reachable_def)
  have e: "startup_event queue_unreachable initial_globals
       = (\<lparr>processor_set = True, model_set = True, redis_client_set = True,
           worker_task_set = False\<rparr>, None)"
    by (simp add: startup_event_def load_model_def queue_unreachable_def initial_globals_def)
  have w: "worker_task_set (fst (startup_event all_reachable initial_globals))"
    using worker_started_iff_startup_succeeds [of all_reachable initial_globals] m by simp
  have p: "ping queue_unreachable = Inl (Error ''Connection refused'')
      \<and> is_Exception (Error ''Connection refused'')"
    by (simp add: queue_unreachable_def)
  have f: "snd (startup_event queue_unreachable initial_globals) = None
      \<and> \<not> worker_task_set (fst (startup_event queue_unreachable initial_globals))"
    using worker_started_iff_startup_succeeds [of queue_unreachable initial_globals] p q
    by blast
  show ?thesis using q m e w f by simp
qed


section \<open>A well-formed job, from the queue to the result channel\<close>

text \<open>
  The job r2 carries a picture the collaborators know. It is parsed, processed and
  published once, as a success with the six tags of its caption.
\<close>

lemma example_loads_r2: "example_loads payload_r2 = Inr job_r2"
  by (simp add: example_loads_def payload_r1_def payload_r2_def quoted_def)

lemma job_r2_processed:
  "process_image example_collaborators ''2026-11-04T10:00:00'' job_r2
     = Inr \<lparr>requestId = JStr ''r2'', success = True,
            data = Some ([''bright'', ''cheerful'', ''happy'', ''vibrant'', ''relaxing'', ''tropical''],
                         ''A sunny beach with bright colors''),
            error = None, worker = ''mood-worker-4242'', processedAt = ''2026-11-04T10:00:00''\<rparr>"
  by (simp add: process_image_def process_image_try_def and_then_def raising_def job_r2_def
      example_collaborators_def extract_mood_tags_def insertion_order_def sunny_beach_tag_set
      tags_or_default_def)

lemma job_r2_published:
  "iteration example_collaborators example_loads
     \<lparr>brpop = Inr (Some (''mood-analysis-queue'', payload_r2)), publish = Inr (),
      sleep_cancelled = False, clock = ''2026-11-04T10:00:00''\<rparr>
   = ([PublishCall ''mood-results''
         \<lparr>requestId = JStr ''r2'', success = True,
          data = Some ([''bright'', ''cheerful'', ''happy'', ''vibrant'', ''relaxing'', ''tropical''],
                       ''A sunny beach with bright colors''),
          error = None, worker = ''mood-worker-4242'', processedAt = ''2026-11-04T10:00:00''\<rparr>],
      Continue)"
proof -
  have s: "subscript job_r2 ''requestId'' = Inr (JStr ''r2'')"
    by (simp add: job_r2_def)
  show ?thesis
    by (simp add: iteration_def outer_try_def inner_try_def dispatch_job_def and_then_def
        example_loads_r2 s job_r2_processed RESULT_CHANNEL_def)
qed

end
